theory Spec2Isabelle
  imports Main "HOL-Library.List_Lexorder" "HOL-Library.Char_ord"
begin

section \<open>The trainer calendar: data flow of the My Calendar page\<close>

text \<open>
  The calendar pipeline of the trainer portal (MY_CALENDAR_README.md): booking requests are
  normalised and filtered by date range, events are converted to the booking shape,
  confirmed bookings with a matching event are removed, blocked weekdays are expanded to
  dates, and each day gets the bookings that cover it and one display status.

  JavaScript strings are modelled as \<^typ>\<open>string\<close>; \<open><=\<close> on strings is the
  lexicographic order on character codes, which is the order of
  \<^theory_text>\<open>List_Lexorder\<close> over \<^theory_text>\<open>Char_ord\<close>. A value that may be
  \<open>null\<close> or \<open>undefined\<close> is an \<^typ>\<open>'a option\<close>; reading a property of
  \<open>null\<close> raises a \<open>TypeError\<close>, which is a value of the result type here.
\<close>

subsection \<open>Strings\<close>

datatype error = TypeError

text \<open>\<open>s.split('T')[0]\<close>: the part of \<open>s\<close> before the first \<open>T\<close> (all of it if there is none).\<close>

definition split_T :: "string \<Rightarrow> string" where
  "split_T s = takeWhile (\<lambda>c. c \<noteq> CHR ''T'') s"

text \<open>\<open>s.toLowerCase()\<close> on ASCII: an upper-case letter gets bit 5 set.\<close>

definition toLowerChar :: "char \<Rightarrow> char" where
  "toLowerChar c =
     (if CHR ''A'' \<le> c \<and> c \<le> CHR ''Z''
      then (case c of Char b0 b1 b2 b3 b4 b5 b6 b7 \<Rightarrow> Char b0 b1 b2 b3 b4 True b6 b7)
      else c)"

definition toLowerCase :: "string \<Rightarrow> string" where
  "toLowerCase s = map toLowerChar s"

subsection \<open>Dates\<close>

text \<open>
  A JavaScript \<open>Date\<close> is a time value: the number of milliseconds since
  1970-01-01T00:00Z. Its calendar fields are read in the local time zone, which gives the
  offset of local time from UTC at an instant (\<open>LocalTZA(t, true)\<close> of ECMAScript) and
  for a local time value (\<open>LocalTZA(t, false)\<close>, which reads a skipped or repeated local
  time with the offset before the transition). \<open>d1 <= d2\<close> on dates compares the
  instants. A calendar day is the number of days since 1970-01-01, which was a Thursday;
  its civil date (\<open>getFullYear()\<close>, \<open>getMonth() + 1\<close>, \<open>getDate()\<close>) is computed in the
  proleptic Gregorian calendar, by 400-year eras starting on 1 March.
\<close>

type_synonym instant = int

type_synonym daynum = int

definition msPerDay :: int where
  "msPerDay = 86400000"

record zone =
  LocalTZA_utc :: "instant \<Rightarrow> int"
  LocalTZA_local :: "int \<Rightarrow> int"

definition LocalTime :: "zone \<Rightarrow> instant \<Rightarrow> int" where
  "LocalTime z t = t + LocalTZA_utc z t"

definition UTC :: "zone \<Rightarrow> int \<Rightarrow> instant" where
  "UTC z lt = lt - LocalTZA_local z lt"

definition Day :: "int \<Rightarrow> daynum" where
  "Day t = t div msPerDay"

definition WeekDay :: "daynum \<Rightarrow> int" where
  "WeekDay d = (d + 4) mod 7"

text \<open>\<open>date.getDay()\<close>: the weekday of the local day, 0 for Sunday.\<close>

definition getDay :: "zone \<Rightarrow> instant \<Rightarrow> int" where
  "getDay z t = WeekDay (Day (LocalTime z t))"

text \<open>
  \<open>date.setDate(date.getDate() + 1)\<close>: the local time value moves on by one day, with
  the same local time of day (day overflow rolls over month and year ends), and is
  converted back to an instant.
\<close>

definition setDate_next :: "zone \<Rightarrow> instant \<Rightarrow> instant" where
  "setDate_next z t = UTC z (LocalTime z t + msPerDay)"

text \<open>
  A zone with one offset, and a zone whose offset changes from \<open>before\<close> to \<open>after\<close>
  at the instant \<open>tr\<close>.
\<close>

definition fixed_zone :: "int \<Rightarrow> zone" where
  "fixed_zone off = \<lparr> LocalTZA_utc = (\<lambda>t. off), LocalTZA_local = (\<lambda>lt. off) \<rparr>"

definition transition_zone :: "int \<Rightarrow> int \<Rightarrow> instant \<Rightarrow> zone" where
  "transition_zone before after tr =
     \<lparr> LocalTZA_utc = (\<lambda>t. if t < tr then before else after),
       LocalTZA_local = (\<lambda>lt. if lt < tr + max before after then before else after) \<rparr>"

definition civil_from_days :: "daynum \<Rightarrow> int \<times> int \<times> int" where
  "civil_from_days d =
     (let z = d + 719468;
          era = z div 146097;
          doe = z - era * 146097;
          yoe = (doe - doe div 1460 + doe div 36524 - doe div 146096) div 365;
          doy = doe - (365 * yoe + yoe div 4 - yoe div 100);
          mp = (5 * doy + 2) div 153;
          dd = doy - (153 * mp + 2) div 5 + 1;
          m = (if mp < 10 then mp + 3 else mp - 9);
          y = yoe + era * 400 + (if m \<le> 2 then 1 else 0)
      in (y, m, dd))"

definition days_from_civil :: "int \<Rightarrow> int \<Rightarrow> int \<Rightarrow> daynum" where
  "days_from_civil y m dd =
     (let y' = (if m \<le> 2 then y - 1 else y);
          era = y' div 400;
          yoe = y' - era * 400;
          doy = (153 * (if m > 2 then m - 3 else m + 9) + 2) div 5 + dd - 1;
          doe = yoe * 365 + yoe div 4 - yoe div 100 + doy
      in era * 146097 + doe - 719468)"

definition digit_char :: "nat \<Rightarrow> char" where
  "digit_char n = ''0123456789'' ! (n mod 10)"

fun show_nat :: "nat \<Rightarrow> string" where
  "show_nat n = (if n < 10 then [digit_char n] else show_nat (n div 10) @ [digit_char n])"

declare show_nat.simps [simp del]

text \<open>\<open>s.padStart(n, '0')\<close>.\<close>

definition padStart :: "nat \<Rightarrow> string \<Rightarrow> string" where
  "padStart n s = replicate (n - length s) CHR ''0'' @ s"

definition show_int :: "nat \<Rightarrow> int \<Rightarrow> string" where
  "show_int w i = (if i < 0 then CHR ''-'' # padStart w (show_nat (nat (- i)))
                   else padStart w (show_nat (nat i)))"

text \<open>
  Modelled from the spec: \<open>formatDate\<close> of \<open>src/lib/calendarUtils.ts\<close> is not among the
  sources. The spec says the expander's dates are "formatted as canonical date strings",
  that is \<open>YYYY-MM-DD\<close>: the year on four digits, month and day on two. It is given here
  on a calendar day; applied to a \<open>Date\<close> it formats the local day of the instant.
\<close>

definition formatDate :: "daynum \<Rightarrow> string" where
  "formatDate d =
     (case civil_from_days d of (y, m, dd) \<Rightarrow>
        show_int 4 y @ ''-'' @ show_int 2 m @ ''-'' @ show_int 2 dd)"

text \<open>A canonical date string: four digits, a dash, a month 01..12, a dash, a day 01..31.\<close>

definition is_digit :: "char \<Rightarrow> bool" where
  "is_digit c = (CHR ''0'' \<le> c \<and> c \<le> CHR ''9'')"

definition digit_val :: "char \<Rightarrow> nat" where
  "digit_val c = of_char c - 48"

definition is_canonical :: "string \<Rightarrow> bool" where
  "is_canonical s =
     (case s of
        [y1, y2, y3, y4, s1, m1, m2, s2, d1, d2] \<Rightarrow>
          list_all is_digit [y1, y2, y3, y4, m1, m2, d1, d2] \<and> s1 = CHR ''-'' \<and> s2 = CHR ''-'' \<and>
          1 \<le> 10 * digit_val m1 + digit_val m2 \<and> 10 * digit_val m1 + digit_val m2 \<le> 12 \<and>
          1 \<le> 10 * digit_val d1 + digit_val d2 \<and> 10 * digit_val d1 + digit_val d2 \<le> 31
      | _ \<Rightarrow> False)"

text \<open>A raw date value: absent, a string, or a native date, given by its calendar day.\<close>

datatype raw_date = Missing | Text string | Native daynum

text \<open>
  Modelled from the spec: \<open>normalizeDate\<close> of \<open>src/lib/calendarUtils.ts\<close> is not among the
  sources. The spec (4.1): given a raw date value (ISO datetime string, date-only string, or
  native date) it returns a canonical \<open>YYYY-MM-DD\<close> string, truncating a trailing
  time-of-day component, and returns \<open>null\<close> for an unparseable or missing input, without
  throwing. The time of day of an ISO string starts at its \<open>T\<close>.
\<close>

definition normalizeDate :: "raw_date \<Rightarrow> string option" where
  "normalizeDate r =
     (case r of
        Missing \<Rightarrow> None
      | Text s \<Rightarrow> (if is_canonical (split_T s) then Some (split_T s) else None)
      | Native d \<Rightarrow> (if is_canonical (formatDate d) then Some (formatDate d) else None))"

subsection \<open>Records\<close>

text \<open>
  The records carry the fields the calendar code reads. A booking request as fetched has a
  raw \<open>requested_date\<close>; after step 1 its \<open>requested_date\<close> is the normaliser's result
  (a string or \<open>null\<close>) and its \<open>end_date\<close> is still the fetched value.
\<close>

record course_info =
  ci_id :: string
  ci_title :: "string option"

record raw_booking =
  rb_id :: string
  rb_course_id :: string
  rb_trainer_id :: string
  rb_requested_date :: raw_date
  rb_end_date :: "string option"
  rb_status :: string
  rb_request_type :: "string option"
  rb_courses :: "course_info option"

record booking =
  booking_id :: string
  course_id :: string
  trainer_id :: string
  requested_date :: "string option"
  end_date :: "string option"
  status :: string
  request_type :: "string option"
  courses :: "course_info option"

record event =
  ev_id :: string
  courseId :: string
  trainerId :: string
  eventDate :: raw_date
  endDate :: raw_date
  title :: "string option"
  courseType :: "string option"
  course :: "course_info option"

record raw_availability =
  ra_id :: string
  ra_trainerId :: string
  ra_date :: string
  ra_status :: string
  ra_startTime :: "string option"
  ra_endTime :: "string option"

record availability =
  av_id :: string
  av_trainer_id :: string
  av_date :: string
  av_status :: string
  av_start_time :: "string option"
  av_end_time :: "string option"

subsection \<open>Step 1: normalise booking requests and filter them by date range\<close>

text \<open>\<open>Array.prototype.filter\<close> with a callback that may throw.\<close>

fun filter_e :: "('a \<Rightarrow> error + bool) \<Rightarrow> 'a list \<Rightarrow> error + 'a list" where
  "filter_e p [] = Inr []"
| "filter_e p (x # xs) =
     (case p x of
        Inl e \<Rightarrow> Inl e
      | Inr keep \<Rightarrow>
          (case filter_e p xs of
             Inl e \<Rightarrow> Inl e
           | Inr ys \<Rightarrow> Inr (if keep then x # ys else ys)))"

text \<open>The \<open>map\<close> callback: \<open>{...booking, requested_date: normalizeDate(...), status: ...}\<close>.\<close>

definition normalizeBooking :: "raw_booking \<Rightarrow> booking" where
  "normalizeBooking rb =
     \<lparr> booking_id = rb_id rb, course_id = rb_course_id rb, trainer_id = rb_trainer_id rb,
       requested_date = normalizeDate (rb_requested_date rb),
       end_date = rb_end_date rb,
       status = toLowerCase (rb_status rb),
       request_type = rb_request_type rb, courses = rb_courses rb \<rparr>"

text \<open>
  The \<open>filter\<close> callback: \<open>booking.requested_date.split('T')[0]\<close> is read without a
  check, so a \<open>null\<close> date raises.
\<close>

definition in_range :: "string \<Rightarrow> string \<Rightarrow> booking \<Rightarrow> error + bool" where
  "in_range startStr endStr b =
     (case requested_date b of
        None \<Rightarrow> Inl TypeError
      | Some r \<Rightarrow> (let dateStr = split_T r in Inr (dateStr \<ge> startStr \<and> dateStr \<le> endStr)))"

definition filteredBookings :: "raw_booking list \<Rightarrow> string \<Rightarrow> string \<Rightarrow> error + booking list" where
  "filteredBookings allBookings startStr endStr =
     filter_e (in_range startStr endStr) (map normalizeBooking allBookings)"

subsection \<open>Step 2: events in the booking shape\<close>

text \<open>\<open>event.title || event.course?.title\<close>: an absent or empty title falls back to the course's.\<close>

definition event_title :: "event \<Rightarrow> string option" where
  "event_title ev =
     (case title ev of
        Some t \<Rightarrow> (if t \<noteq> [] then Some t else (case course ev of None \<Rightarrow> None | Some c \<Rightarrow> ci_title c))
      | None \<Rightarrow> (case course ev of None \<Rightarrow> None | Some c \<Rightarrow> ci_title c))"

definition eventBooking :: "event \<Rightarrow> booking" where
  "eventBooking ev =
     \<lparr> booking_id = ev_id ev, course_id = courseId ev, trainer_id = trainerId ev,
       requested_date = normalizeDate (eventDate ev),
       end_date = normalizeDate (endDate ev),
       status = ''booked'',
       request_type = Some (if courseType ev = Some ''PUBLIC'' then ''public'' else ''inhouse''),
       courses = Some \<lparr> ci_id = courseId ev, ci_title = event_title ev \<rparr> \<rparr>"

definition eventBookings :: "event list \<Rightarrow> booking list" where
  "eventBookings allEvents = map eventBooking allEvents"

subsection \<open>Steps 3 and 4: deduplication and the combined list\<close>

text \<open>
  The template string \<open>`${b.course_id}:${b.requested_date}`\<close>; a \<open>null\<close> date prints as
  \<open>null\<close>.
\<close>

definition booking_identifier :: "booking \<Rightarrow> string" where
  "booking_identifier b = course_id b @ '':'' @ (case requested_date b of None \<Rightarrow> ''null'' | Some d \<Rightarrow> d)"

text \<open>
  The variables of the hook that the deduplication reads and writes. The two input arrays
  are only read; the identifier set and the two output arrays are created by the run.
\<close>

record hook_state =
  st_filteredBookings :: "booking list"
  st_eventBookings :: "booking list"
  st_eventIdentifiers :: "string set"
  st_deduplicatedBookings :: "booking list"
  st_allCalendarBookings :: "booking list"

text \<open>\<open>eventBookings.forEach(eventBooking => eventIdentifiers.add(identifier))\<close>.\<close>

definition add_identifier :: "booking \<Rightarrow> hook_state \<Rightarrow> hook_state" where
  "add_identifier eb s =
     s\<lparr> st_eventIdentifiers := insert (booking_identifier eb) (st_eventIdentifiers s) \<rparr>"

text \<open>The callback of \<open>filteredBookings.filter\<close>, with its three returns.\<close>

definition keep_booking :: "string set \<Rightarrow> booking \<Rightarrow> bool" where
  "keep_booking eventIdentifiers b =
     (let bookingStatus = toLowerCase (status b) in
      if bookingStatus \<noteq> ''confirmed'' then True
      else if booking_identifier b \<in> eventIdentifiers then False
      else True)"

definition deduplicate :: "hook_state \<Rightarrow> hook_state" where
  "deduplicate s =
     (let s1 = s\<lparr> st_eventIdentifiers := {} \<rparr>;
          s2 = fold add_identifier (st_eventBookings s1) s1;
          s3 = s2\<lparr> st_deduplicatedBookings :=
                   filter (keep_booking (st_eventIdentifiers s2)) (st_filteredBookings s2) \<rparr>
      in s3\<lparr> st_allCalendarBookings := st_deduplicatedBookings s3 @ st_eventBookings s3 \<rparr>)"

text \<open>The hook starts with its two input arrays and nothing else.\<close>

definition hook_init :: "booking list \<Rightarrow> booking list \<Rightarrow> hook_state" where
  "hook_init fb eb =
     \<lparr> st_filteredBookings = fb, st_eventBookings = eb, st_eventIdentifiers = {},
       st_deduplicatedBookings = [], st_allCalendarBookings = [] \<rparr>"

definition deduplicatedBookings :: "booking list \<Rightarrow> booking list \<Rightarrow> booking list" where
  "deduplicatedBookings fb eb = st_deduplicatedBookings (deduplicate (hook_init fb eb))"

definition allCalendarBookings :: "booking list \<Rightarrow> booking list \<Rightarrow> booking list" where
  "allCalendarBookings fb eb = st_allCalendarBookings (deduplicate (hook_init fb eb))"

subsection \<open>Step 5: availability records\<close>

definition normalizeAvailability :: "raw_availability \<Rightarrow> availability" where
  "normalizeAvailability item =
     \<lparr> av_id = ra_id item, av_trainer_id = ra_trainerId item,
       av_date = split_T (ra_date item),
       av_status = toLowerCase (ra_status item),
       av_start_time = ra_startTime item, av_end_time = ra_endTime item \<rparr>"

definition normalizedAvailability :: "raw_availability list \<Rightarrow> availability list" where
  "normalizedAvailability availabilityArray = map normalizeAvailability availabilityArray"

subsection \<open>Step 6: blocked weekdays as dates\<close>

text \<open>
  The \<open>while\<close> loop over \<open>current\<close>, with the array being built as an accumulator
  (\<open>lastDate\<close> is the source's \<open>endDate\<close>). \<open>current <= endDate\<close> compares instants,
  \<open>formatDate(current)\<close> formats the local day of \<open>current\<close>, and the local time zone is
  a parameter. Whether the loop ends depends on the zone, so the result is optional.
\<close>

partial_function (option) expand_loop ::
  "zone \<Rightarrow> instant \<Rightarrow> instant \<Rightarrow> int list \<Rightarrow> string list \<Rightarrow> string list option" where
  "expand_loop z current lastDate blockedWeekdays acc =
     (if current \<le> lastDate
      then expand_loop z (setDate_next z current) lastDate blockedWeekdays
             (if getDay z current \<in> set blockedWeekdays
              then acc @ [formatDate (Day (LocalTime z current))] else acc)
      else Some acc)"

definition expandedBlockedDates :: "zone \<Rightarrow> instant \<Rightarrow> instant \<Rightarrow> int list \<Rightarrow> string list option" where
  "expandedBlockedDates z startDate lastDate blockedWeekdays =
     expand_loop z startDate lastDate blockedWeekdays []"

subsection \<open>The bookings of a date\<close>

text \<open>
  The callback of \<open>getBookingsForDate\<close>. \<open>booking.end_date?.split('T')[0]\<close> is
  \<open>undefined\<close> for a booking without end date, and \<open>if (bookingEnd)\<close> also fails for
  the empty string; \<open>booking.requested_date\<close> is read without a check.
\<close>

definition covers_date :: "string \<Rightarrow> booking \<Rightarrow> error + bool" where
  "covers_date dateString b =
     (case requested_date b of
        None \<Rightarrow> Inl TypeError
      | Some r \<Rightarrow>
          (let bookingStart = split_T r;
               bookingEnd = map_option split_T (end_date b)
           in case bookingEnd of
                Some e \<Rightarrow>
                  (if e \<noteq> [] then Inr (dateString \<ge> bookingStart \<and> dateString \<le> e)
                   else Inr (bookingStart = dateString))
              | None \<Rightarrow> Inr (bookingStart = dateString)))"

definition getBookingsForDate :: "booking list \<Rightarrow> string \<Rightarrow> error + booking list" where
  "getBookingsForDate bookings dateString = filter_e (covers_date dateString) bookings"

subsection \<open>The status of a day\<close>

datatype day_status = Blocked | Booked | Tentative | Available | NotAvailable

text \<open>
  Modelled from the spec: \<open>resolveDayStatus\<close> of \<open>src/lib/calendarUtils.ts\<close> is not among
  the sources. The spec (4.6) and the README's priority list: blocked if the date is
  blocked; else booked if any overlapping booking has status \<open>booked\<close> or \<open>confirmed\<close>;
  else tentative if any has status \<open>approved\<close> or \<open>tentative\<close>; else available if the
  availability record exists and its status is \<open>available\<close>; else not available.
\<close>

definition resolveDayStatus :: "bool \<Rightarrow> booking list \<Rightarrow> availability option \<Rightarrow> day_status" where
  "resolveDayStatus isBlocked bookings avail =
     (if isBlocked then Blocked
      else if list_ex (\<lambda>b. status b = ''booked'' \<or> status b = ''confirmed'') bookings then Booked
      else if list_ex (\<lambda>b. status b = ''approved'' \<or> status b = ''tentative'') bookings then Tentative
      else (case avail of
              Some a \<Rightarrow> (if av_status a = ''available'' then Available else NotAvailable)
            | None \<Rightarrow> NotAvailable))"

subsection \<open>Sample data\<close>

definition sample_booking :: "string \<Rightarrow> string \<Rightarrow> string option \<Rightarrow> string \<Rightarrow> booking" where
  "sample_booking c d e st =
     \<lparr> booking_id = ''b1'', course_id = c, trainer_id = ''t1'', requested_date = Some d,
       end_date = e, status = st, request_type = None, courses = None \<rparr>"

definition sample_raw_booking :: "string \<Rightarrow> raw_date \<Rightarrow> string option \<Rightarrow> string \<Rightarrow> raw_booking" where
  "sample_raw_booking c d e st =
     \<lparr> rb_id = ''b1'', rb_course_id = c, rb_trainer_id = ''t1'', rb_requested_date = d,
       rb_end_date = e, rb_status = st, rb_request_type = None, rb_courses = None \<rparr>"

definition sample_event :: "string \<Rightarrow> raw_date \<Rightarrow> raw_date \<Rightarrow> event" where
  "sample_event c d e =
     \<lparr> ev_id = ''e1'', courseId = c, trainerId = ''t1'', eventDate = d, endDate = e,
       title = Some ''Workshop'', courseType = Some ''PUBLIC'', course = None \<rparr>"

definition sample_availability :: "string \<Rightarrow> string \<Rightarrow> raw_availability" where
  "sample_availability d st =
     \<lparr> ra_id = ''a1'', ra_trainerId = ''t1'', ra_date = d, ra_status = st,
       ra_startTime = None, ra_endTime = None \<rparr>"

text \<open>
  Africa/Cairo in spring 2024: two hours ahead of UTC until daylight saving time began on
  26 April at local midnight (2024-04-25T22:00Z), three hours ahead after.
\<close>

definition cairo_2024 :: zone where
  "cairo_2024 = transition_zone 7200000 10800000 1714082400000"

subsection \<open>Events and bookings as objects\<close>

text \<open>
  To speak about sharing, objects live in a store: an object is a list of properties, a
  property value is \<open>undefined\<close>/\<open>null\<close>, a string, a date or a reference to another
  object, and the address of an object is its index in the store. An object literal
  allocates a new object at the end of the store.
\<close>

type_synonym addr = nat

datatype val = Undefined | Str string | DateVal daynum | Ref addr

type_synonym obj = "(string \<times> val) list"

type_synonym heap = "obj list"

definition get_prop :: "obj \<Rightarrow> string \<Rightarrow> val" where
  "get_prop ob k = (case map_of ob k of None \<Rightarrow> Undefined | Some v \<Rightarrow> v)"

definition raw_of_val :: "val \<Rightarrow> raw_date" where
  "raw_of_val v = (case v of Str s \<Rightarrow> Text s | DateVal d \<Rightarrow> Native d | _ \<Rightarrow> Missing)"

definition val_of_opt :: "string option \<Rightarrow> val" where
  "val_of_opt x = (case x of None \<Rightarrow> Undefined | Some s \<Rightarrow> Str s)"

definition val_of_raw :: "raw_date \<Rightarrow> val" where
  "val_of_raw r = (case r of Missing \<Rightarrow> Undefined | Text s \<Rightarrow> Str s | Native d \<Rightarrow> DateVal d)"

text \<open>\<open>event.course?.title\<close>, read through the reference held by the event.\<close>

definition course_title_h :: "heap \<Rightarrow> obj \<Rightarrow> val" where
  "course_title_h h ev = (case get_prop ev ''course'' of Ref c \<Rightarrow> get_prop (h ! c) ''title'' | _ \<Rightarrow> Undefined)"

text \<open>
  The callback of \<open>allEvents.map\<close> on the store: the inner literal \<open>courses\<close> and the
  booking literal are allocated, and the address of the booking is returned.
\<close>

definition eventBooking_h :: "heap \<Rightarrow> addr \<Rightarrow> heap \<times> addr" where
  "eventBooking_h h e =
     (let ev = h ! e;
          t = (case get_prop ev ''title'' of
                 Undefined \<Rightarrow> course_title_h h ev
               | Str s \<Rightarrow> (if s \<noteq> [] then Str s else course_title_h h ev)
               | v \<Rightarrow> v);
          h1 = h @ [[(''id'', get_prop ev ''courseId''), (''title'', t)]];
          b = [(''id'', get_prop ev ''id''),
               (''course_id'', get_prop ev ''courseId''),
               (''trainer_id'', get_prop ev ''trainerId''),
               (''requested_date'', val_of_opt (normalizeDate (raw_of_val (get_prop ev ''eventDate'')))),
               (''end_date'', val_of_opt (normalizeDate (raw_of_val (get_prop ev ''endDate'')))),
               (''status'', Str ''booked''),
               (''request_type'',
                  Str (if get_prop ev ''courseType'' = Str ''PUBLIC'' then ''public'' else ''inhouse'')),
               (''courses'', Ref (length h))]
      in (h1 @ [b], length h1))"

text \<open>The records as objects.\<close>

definition course_obj :: "course_info \<Rightarrow> obj" where
  "course_obj c = [(''id'', Str (ci_id c)), (''title'', val_of_opt (ci_title c))]"

definition event_obj :: "event \<Rightarrow> val \<Rightarrow> obj" where
  "event_obj ev cref =
     [(''id'', Str (ev_id ev)), (''courseId'', Str (courseId ev)), (''trainerId'', Str (trainerId ev)),
      (''eventDate'', val_of_raw (eventDate ev)), (''endDate'', val_of_raw (endDate ev)),
      (''title'', val_of_opt (title ev)), (''courseType'', val_of_opt (courseType ev)),
      (''course'', cref)]"

definition booking_obj :: "booking \<Rightarrow> val \<Rightarrow> obj" where
  "booking_obj b cref =
     [(''id'', Str (booking_id b)), (''course_id'', Str (course_id b)),
      (''trainer_id'', Str (trainer_id b)),
      (''requested_date'', val_of_opt (requested_date b)),
      (''end_date'', val_of_opt (end_date b)),
      (''status'', Str (status b)),
      (''request_type'', val_of_opt (request_type b)),
      (''courses'', cref)]"

text \<open>The store holds the event \<open>ev\<close> at address \<open>e\<close>, with its course object if it has one.\<close>

definition holds_event :: "heap \<Rightarrow> addr \<Rightarrow> event \<Rightarrow> bool" where
  "holds_event h e ev =
     (e < length h \<and>
      (case course ev of
         None \<Rightarrow> h ! e = event_obj ev Undefined
       | Some c \<Rightarrow> (\<exists>a < length h. h ! e = event_obj ev (Ref a) \<and> h ! a = course_obj c)))"

text \<open>The objects that can be reached from an address by following references.\<close>

inductive reaches :: "heap \<Rightarrow> addr \<Rightarrow> addr \<Rightarrow> bool" for h :: heap and a :: addr where
  reaches_self: "reaches h a a"
| reaches_step: "reaches h a a' \<Longrightarrow> a' < length h \<Longrightarrow> (k, Ref a'') \<in> set (h ! a') \<Longrightarrow> reaches h a a''"

section \<open>Properties\<close>

subsection \<open>The status of a day\<close>

text \<open>
  C1. The resolver returns one of the five statuses, chosen by strict descending
  precedence: blocked if the date is blocked, whatever the bookings and the availability;
  else booked if some booking is \<open>booked\<close> or \<open>confirmed\<close>; else tentative if some
  booking is \<open>approved\<close> or \<open>tentative\<close>; else available if there is an availability
  record with status \<open>available\<close>; else not available. Each status is returned in exactly
  its own case, so the five cases exclude each other. A blocked date with a booked booking
  is blocked, and a date with a booked and an approved booking is booked.
\<close>

theorem resolveDayStatus_precedence:
  "(resolveDayStatus blocked bs av = Blocked \<longleftrightarrow> blocked)
   \<and> (resolveDayStatus blocked bs av = Booked \<longleftrightarrow>
        \<not> blocked \<and> (\<exists>b\<in>set bs. status b = ''booked'' \<or> status b = ''confirmed''))
   \<and> (resolveDayStatus blocked bs av = Tentative \<longleftrightarrow>
        \<not> blocked \<and> \<not> (\<exists>b\<in>set bs. status b = ''booked'' \<or> status b = ''confirmed'')
        \<and> (\<exists>b\<in>set bs. status b = ''approved'' \<or> status b = ''tentative''))
   \<and> (resolveDayStatus blocked bs av = Available \<longleftrightarrow>
        \<not> blocked \<and> \<not> (\<exists>b\<in>set bs. status b = ''booked'' \<or> status b = ''confirmed'')
        \<and> \<not> (\<exists>b\<in>set bs. status b = ''approved'' \<or> status b = ''tentative'')
        \<and> (\<exists>a. av = Some a \<and> av_status a = ''available''))
   \<and> (resolveDayStatus blocked bs av = NotAvailable \<longleftrightarrow>
        \<not> blocked \<and> \<not> (\<exists>b\<in>set bs. status b = ''booked'' \<or> status b = ''confirmed'')
        \<and> \<not> (\<exists>b\<in>set bs. status b = ''approved'' \<or> status b = ''tentative'')
        \<and> \<not> (\<exists>a. av = Some a \<and> av_status a = ''available''))
   \<and> resolveDayStatus True bs av = Blocked
   \<and> (status b1 = ''booked'' \<and> status b2 = ''approved'' \<longrightarrow>
        resolveDayStatus False [b1, b2] av = Booked \<and> resolveDayStatus False [b2, b1] av = Booked)"
  by (auto simp: resolveDayStatus_def list_ex_iff split: option.splits)

theorem resolveDayStatus_precedence_witness:
  "resolveDayStatus True [sample_booking ''c1'' ''2024-01-10'' None ''booked''] None = Blocked
   \<and> resolveDayStatus False [sample_booking ''c1'' ''2024-01-10'' None ''booked'',
                               sample_booking ''c2'' ''2024-01-10'' None ''approved''] None = Booked
   \<and> resolveDayStatus False [sample_booking ''c2'' ''2024-01-10'' None ''approved''] None = Tentative
   \<and> resolveDayStatus False [sample_booking ''c2'' ''2024-01-10'' None ''pending'']
        (Some (normalizeAvailability (sample_availability ''2024-01-10'' ''available''))) = Available
   \<and> resolveDayStatus False [] None = NotAvailable"
  using resolveDayStatus_precedence
          [of True "[sample_booking ''c1'' ''2024-01-10'' None ''booked'']" None
              "sample_booking ''c1'' ''2024-01-10'' None ''booked''"
              "sample_booking ''c2'' ''2024-01-10'' None ''approved''"]
        resolveDayStatus_precedence
          [of False "[sample_booking ''c2'' ''2024-01-10'' None ''approved'']" None]
        resolveDayStatus_precedence
          [of False "[sample_booking ''c2'' ''2024-01-10'' None ''pending'']"
              "Some (normalizeAvailability (sample_availability ''2024-01-10'' ''available''))"]
        resolveDayStatus_precedence [of False "[]" None]
  by (simp add: sample_booking_def sample_availability_def normalizeAvailability_def
        toLowerCase_def toLowerChar_def)

text \<open>
  C5. On a date that is not blocked and has no booking with status \<open>booked\<close>,
  \<open>confirmed\<close>, \<open>approved\<close> or \<open>tentative\<close>, the resolver returns available exactly when
  there is an availability record whose status, lower-cased by the normalisation of step 5,
  is \<open>available\<close> (so \<open>AVAILABLE\<close> qualifies); without a record, or with a record whose
  status is \<open>not_available\<close>, \<open>booked\<close> or \<open>tentative\<close>, it returns not available.
\<close>

theorem resolveDayStatus_availability:
  assumes "\<not> blocked"
    and "\<forall>b\<in>set bs. status b \<notin> {''booked'', ''confirmed'', ''approved'', ''tentative''}"
  shows "(resolveDayStatus blocked bs (Some (normalizeAvailability item)) = Available
            \<longleftrightarrow> toLowerCase (ra_status item) = ''available'')
   \<and> (toLowerCase (ra_status item) \<noteq> ''available''
        \<longrightarrow> resolveDayStatus blocked bs (Some (normalizeAvailability item)) = NotAvailable)
   \<and> (ra_status item = ''AVAILABLE''
        \<longrightarrow> resolveDayStatus blocked bs (Some (normalizeAvailability item)) = Available)
   \<and> (ra_status item \<in> {''not_available'', ''booked'', ''tentative''}
        \<longrightarrow> resolveDayStatus blocked bs (Some (normalizeAvailability item)) = NotAvailable)
   \<and> resolveDayStatus blocked bs None = NotAvailable
   \<and> (resolveDayStatus blocked bs av = Available \<longleftrightarrow> (\<exists>a. av = Some a \<and> av_status a = ''available''))
   \<and> (resolveDayStatus blocked bs av = NotAvailable \<longleftrightarrow> \<not> (\<exists>a. av = Some a \<and> av_status a = ''available''))"
proof -
  have none: "\<not> list_ex (\<lambda>b. status b = ''booked'' \<or> status b = ''confirmed'') bs"
    "\<not> list_ex (\<lambda>b. status b = ''approved'' \<or> status b = ''tentative'') bs"
    using assms(2) by (auto simp: list_ex_iff)
  have lower: "toLowerCase ''AVAILABLE'' = ''available''"
    "toLowerCase ''not_available'' \<noteq> ''available''"
    "toLowerCase ''booked'' \<noteq> ''available''"
    "toLowerCase ''tentative'' \<noteq> ''available''"
    by (simp_all add: toLowerCase_def toLowerChar_def)
  show ?thesis
    using assms(1) none lower
    by (auto simp: resolveDayStatus_def normalizeAvailability_def split: option.splits)
qed

theorem resolveDayStatus_availability_witness:
  "resolveDayStatus False [sample_booking ''c1'' ''2024-01-10'' None ''pending'']
     (Some (normalizeAvailability (sample_availability ''2024-01-10T00:00:00.000Z'' ''AVAILABLE'')))
     = Available
   \<and> resolveDayStatus False [sample_booking ''c1'' ''2024-01-10'' None ''pending'']
     (Some (normalizeAvailability (sample_availability ''2024-01-10'' ''not_available'')))
     = NotAvailable
   \<and> resolveDayStatus False [sample_booking ''c1'' ''2024-01-10'' None ''pending''] None
     = NotAvailable"
proof -
  let ?bs = "[sample_booking ''c1'' ''2024-01-10'' None ''pending'']"
  have h1: "\<not> False" by simp
  have h2: "\<forall>b\<in>set ?bs. status b \<notin> {''booked'', ''confirmed'', ''approved'', ''tentative''}"
    by (simp add: sample_booking_def)
  show ?thesis
    using resolveDayStatus_availability
            [OF h1 h2, of "sample_availability ''2024-01-10T00:00:00.000Z'' ''AVAILABLE''"]
          resolveDayStatus_availability
            [OF h1 h2, of "sample_availability ''2024-01-10'' ''not_available''"]
    by (simp add: sample_availability_def)
qed

subsection \<open>Deduplication\<close>

lemma fold_add_identifier:
  "fold add_identifier ebs s =
     s\<lparr> st_eventIdentifiers := st_eventIdentifiers s \<union> booking_identifier ` set ebs \<rparr>"
  by (induction ebs arbitrary: s) (auto simp: add_identifier_def)

lemma deduplicate_fields:
  "st_filteredBookings (deduplicate s) = st_filteredBookings s"
  "st_eventBookings (deduplicate s) = st_eventBookings s"
  "st_eventIdentifiers (deduplicate s) = booking_identifier ` set (st_eventBookings s)"
  "st_deduplicatedBookings (deduplicate s) =
     filter (keep_booking (booking_identifier ` set (st_eventBookings s))) (st_filteredBookings s)"
  "st_allCalendarBookings (deduplicate s) =
     filter (keep_booking (booking_identifier ` set (st_eventBookings s))) (st_filteredBookings s)
       @ st_eventBookings s"
  by (simp_all add: deduplicate_def Let_def fold_add_identifier)

lemma deduplicatedBookings_filter:
  "deduplicatedBookings fb eb = filter (keep_booking (booking_identifier ` set eb)) fb"
  by (simp add: deduplicatedBookings_def deduplicate_fields hook_init_def)

lemma allCalendarBookings_append:
  "allCalendarBookings fb eb = deduplicatedBookings fb eb @ eb"
  by (simp add: allCalendarBookings_def deduplicatedBookings_def deduplicate_fields hook_init_def)

lemma keep_booking_iff:
  "keep_booking ids b \<longleftrightarrow> (toLowerCase (status b) = ''confirmed'' \<longrightarrow> booking_identifier b \<notin> ids)"
  by (simp add: keep_booking_def Let_def)

lemma count_list_filter:
  "count_list (filter P xs) x = (if P x then count_list xs x else 0)"
  by (induction xs) auto

lemma confirmed_not_booked: "toLowerCase s = ''confirmed'' \<Longrightarrow> s \<noteq> ''booked''"
  by (auto simp: toLowerCase_def toLowerChar_def)

text \<open>
  C7. A run of the deduplication leaves its two input lists as they were, a second run
  on the resulting state changes nothing, and the two output lists depend only on the two
  input lists: whatever the identifier set and the output variables held before the run
  has no effect on the result.
\<close>

theorem deduplicate_pure:
  "st_filteredBookings (deduplicate s) = st_filteredBookings s
   \<and> st_eventBookings (deduplicate s) = st_eventBookings s
   \<and> deduplicate (deduplicate s) = deduplicate s
   \<and> (st_filteredBookings s = st_filteredBookings s' \<and> st_eventBookings s = st_eventBookings s'
        \<longrightarrow> st_deduplicatedBookings (deduplicate s) = st_deduplicatedBookings (deduplicate s')
          \<and> st_allCalendarBookings (deduplicate s) = st_allCalendarBookings (deduplicate s'))"
proof -
  have "deduplicate (deduplicate s) = deduplicate s"
    by (rule hook_state.equality) (simp_all add: deduplicate_fields)
  then show ?thesis by (simp add: deduplicate_fields)
qed

theorem deduplicate_pure_witness:
  "st_allCalendarBookings (deduplicate
      ((hook_init [sample_booking ''c1'' ''2024-01-10'' None ''confirmed'']
                  [sample_booking ''c1'' ''2024-01-10'' None ''booked''])
         \<lparr> st_eventIdentifiers := {''stale''},
           st_deduplicatedBookings := [sample_booking ''c9'' ''2024-01-10'' None ''denied''] \<rparr>))
   = st_allCalendarBookings (deduplicate
      (hook_init [sample_booking ''c1'' ''2024-01-10'' None ''confirmed'']
                 [sample_booking ''c1'' ''2024-01-10'' None ''booked'']))
   \<and> st_allCalendarBookings (deduplicate
      (hook_init [sample_booking ''c1'' ''2024-01-10'' None ''confirmed'']
                 [sample_booking ''c1'' ''2024-01-10'' None ''booked'']))
     = [sample_booking ''c1'' ''2024-01-10'' None ''booked'']"
  using deduplicate_pure
          [of "(hook_init [sample_booking ''c1'' ''2024-01-10'' None ''confirmed'']
                  [sample_booking ''c1'' ''2024-01-10'' None ''booked''])
                 \<lparr> st_eventIdentifiers := {''stale''},
                   st_deduplicatedBookings := [sample_booking ''c9'' ''2024-01-10'' None ''denied''] \<rparr>"
              "hook_init [sample_booking ''c1'' ''2024-01-10'' None ''confirmed'']
                  [sample_booking ''c1'' ''2024-01-10'' None ''booked'']"]
  by (simp add: hook_init_def deduplicate_fields keep_booking_iff sample_booking_def
        booking_identifier_def toLowerCase_def toLowerChar_def)

subsection \<open>Canonical dates and identifiers\<close>

lemma is_canonical_chars:
  assumes "is_canonical s"
  shows "length s = 10" and "\<forall>c\<in>set s. is_digit c \<or> c = CHR ''-''"
  using assms by (auto simp: is_canonical_def split: list.splits)

lemma is_canonical_no_colon: "is_canonical s \<Longrightarrow> CHR '':'' \<notin> set s"
  using is_canonical_chars(2) [of s] by (auto simp: is_digit_def)

lemma is_canonical_no_T: "is_canonical s \<Longrightarrow> CHR ''T'' \<notin> set s"
  using is_canonical_chars(2) [of s] by (auto simp: is_digit_def)

lemma split_T_id: "CHR ''T'' \<notin> set s \<Longrightarrow> split_T s = s"
  by (auto simp: split_T_def takeWhile_eq_all_conv)

lemma normalizeDate_canonical: "normalizeDate r = Some d \<Longrightarrow> is_canonical d"
  by (auto simp: normalizeDate_def split: raw_date.splits if_splits)

lemma first_occurrence_split:
  assumes "xs @ x # ys = xs' @ x # ys'" "x \<notin> set xs" "x \<notin> set xs'"
  shows "xs = xs' \<and> ys = ys'"
proof -
  have "takeWhile (\<lambda>c. c \<noteq> x) (xs @ x # ys) = xs" "takeWhile (\<lambda>c. c \<noteq> x) (xs' @ x # ys') = xs'"
    using assms(2,3) by (auto simp: takeWhile_tail takeWhile_eq_all_conv)
  then have "xs = xs'" using assms(1) by simp
  then show ?thesis using assms(1) by simp
qed

lemma last_colon_split:
  assumes "c1 @ CHR '':'' # d1 = c2 @ CHR '':'' # d2" "CHR '':'' \<notin> set d1" "CHR '':'' \<notin> set d2"
  shows "c1 = c2 \<and> d1 = d2"
proof -
  have "rev d1 @ CHR '':'' # rev c1 = rev d2 @ CHR '':'' # rev c2"
    using arg_cong [OF assms(1), of rev] by simp
  moreover have "CHR '':'' \<notin> set (rev d1)" "CHR '':'' \<notin> set (rev d2)" using assms by simp_all
  ultimately have "rev d1 = rev d2 \<and> rev c1 = rev c2"
    by (rule first_occurrence_split)
  then show ?thesis by simp
qed

lemma booking_identifier_inj:
  assumes "booking_identifier a = booking_identifier b"
    and "\<And>d. requested_date a = Some d \<Longrightarrow> is_canonical d"
    and "\<And>d. requested_date b = Some d \<Longrightarrow> is_canonical d"
  shows "course_id a = course_id b \<and> requested_date a = requested_date b"
proof -
  let ?p = "\<lambda>x::booking. case requested_date x of None \<Rightarrow> ''null'' | Some d \<Rightarrow> d"
  have nca: "CHR '':'' \<notin> set (?p a)"
    using assms(2) by (auto simp: is_canonical_no_colon split: option.splits)
  have ncb: "CHR '':'' \<notin> set (?p b)"
    using assms(3) by (auto simp: is_canonical_no_colon split: option.splits)
  have "course_id a @ CHR '':'' # ?p a = course_id b @ CHR '':'' # ?p b"
    using assms(1) by (simp add: booking_identifier_def)
  then have eq: "course_id a = course_id b \<and> ?p a = ?p b"
    using last_colon_split nca ncb by blast
  have "requested_date a = requested_date b"
    using eq assms(2,3) is_canonical_chars(1) [of "''null''"]
    by (auto split: option.splits)
  with eq show ?thesis by simp
qed

lemma filter_e_Inr:
  assumes "\<forall>x\<in>set xs. \<exists>k. p x = Inr k"
  shows "filter_e p xs = Inr (filter (\<lambda>x. p x = Inr True) xs)"
  using assms by (induction xs) auto

lemma filter_e_set:
  assumes "filter_e p xs = Inr ys"
  shows "ys = filter (\<lambda>x. p x = Inr True) xs"
  using assms
  by (induction xs arbitrary: ys) (auto split: sum.splits if_splits)

lemma filteredBookings_canonical:
  assumes "filteredBookings raw startStr endStr = Inr fb" "b \<in> set fb" "requested_date b = Some d"
  shows "is_canonical d"
proof -
  have "fb = filter (\<lambda>x. in_range startStr endStr x = Inr True) (map normalizeBooking raw)"
    using assms(1) unfolding filteredBookings_def by (rule filter_e_set)
  then obtain rb where "b = normalizeBooking rb" using assms(2) by auto
  then show ?thesis using assms(3) normalizeDate_canonical by (simp add: normalizeBooking_def)
qed

lemma erase_end_filter:
  "map (\<lambda>b. b\<lparr>end_date := None\<rparr>) (filter (keep_booking ids) fb)
     = filter (keep_booking ids) (map (\<lambda>b. b\<lparr>end_date := None\<rparr>) fb)"
  by (induction fb) (simp_all add: keep_booking_iff booking_identifier_def)

lemma erase_end_identifiers:
  "booking_identifier ` set (map (\<lambda>b. b\<lparr>end_date := None\<rparr>) eb) = booking_identifier ` set eb"
  by (auto simp: booking_identifier_def image_iff)

text \<open>
  C10. Whether a raw booking is kept depends only on its status, course id and start date:
  two bookings that agree on these are kept or discarded alike, and two runs whose inputs
  differ only in \<open>end_date\<close> fields (of raw or of event-derived bookings) keep the same
  bookings, up to those \<open>end_date\<close> fields. In the pipeline, a confirmed booking is
  suppressed exactly when some event has the same course id and the same normalised start
  date; an event of the same course that starts on another day of the booking does not
  suppress it.
\<close>

theorem deduplication_ignores_end_date:
  "(status b = status b' \<and> course_id b = course_id b' \<and> requested_date b = requested_date b'
      \<longrightarrow> keep_booking ids b = keep_booking ids b')
   \<and> (map (\<lambda>b. b\<lparr>end_date := None\<rparr>) fb = map (\<lambda>b. b\<lparr>end_date := None\<rparr>) fb'
        \<and> map (\<lambda>b. b\<lparr>end_date := None\<rparr>) eb = map (\<lambda>b. b\<lparr>end_date := None\<rparr>) eb'
      \<longrightarrow> map (\<lambda>b. b\<lparr>end_date := None\<rparr>) (deduplicatedBookings fb eb)
          = map (\<lambda>b. b\<lparr>end_date := None\<rparr>) (deduplicatedBookings fb' eb'))
   \<and> (filteredBookings raw startStr endStr = Inr fb
      \<longrightarrow> (\<forall>x\<in>set fb. toLowerCase (status x) = ''confirmed'' \<longrightarrow>
            (x \<notin> set (deduplicatedBookings fb (eventBookings evs))
               \<longleftrightarrow> (\<exists>ev\<in>set evs. courseId ev = course_id x
                                   \<and> normalizeDate (eventDate ev) = requested_date x))))"
proof -
  have a: "keep_booking ids b = keep_booking ids b'"
    if "status b = status b' \<and> course_id b = course_id b' \<and> requested_date b = requested_date b'"
    using that by (simp add: keep_booking_iff booking_identifier_def)
  have b: "map (\<lambda>b. b\<lparr>end_date := None\<rparr>) (deduplicatedBookings fb eb)
          = map (\<lambda>b. b\<lparr>end_date := None\<rparr>) (deduplicatedBookings fb' eb')"
    if "map (\<lambda>b. b\<lparr>end_date := None\<rparr>) fb = map (\<lambda>b. b\<lparr>end_date := None\<rparr>) fb'
        \<and> map (\<lambda>b. b\<lparr>end_date := None\<rparr>) eb = map (\<lambda>b. b\<lparr>end_date := None\<rparr>) eb'"
  proof -
    have "booking_identifier ` set eb = booking_identifier ` set eb'"
      using that erase_end_identifiers [of eb] erase_end_identifiers [of eb'] by simp
    then show ?thesis
      using that by (simp add: deduplicatedBookings_filter erase_end_filter)
  qed
  have c: "x \<notin> set (deduplicatedBookings fb (eventBookings evs))
               \<longleftrightarrow> (\<exists>ev\<in>set evs. courseId ev = course_id x
                                   \<and> normalizeDate (eventDate ev) = requested_date x)"
    if f: "filteredBookings raw startStr endStr = Inr fb" and x: "x \<in> set fb"
      and st: "toLowerCase (status x) = ''confirmed''" for x
  proof
    assume "x \<notin> set (deduplicatedBookings fb (eventBookings evs))"
    then have "booking_identifier x \<in> booking_identifier ` set (eventBookings evs)"
      using x st by (simp add: deduplicatedBookings_filter keep_booking_iff)
    then obtain ev where ev: "ev \<in> set evs"
      and i: "booking_identifier x = booking_identifier (eventBooking ev)"
      by (auto simp: eventBookings_def)
    have "course_id x = course_id (eventBooking ev)
          \<and> requested_date x = requested_date (eventBooking ev)"
    proof (rule booking_identifier_inj [OF i])
      show "\<And>d. requested_date x = Some d \<Longrightarrow> is_canonical d"
        using filteredBookings_canonical [OF f x] .
      show "\<And>d. requested_date (eventBooking ev) = Some d \<Longrightarrow> is_canonical d"
        using normalizeDate_canonical by (simp add: eventBooking_def)
    qed
    then show "\<exists>ev\<in>set evs. courseId ev = course_id x
                 \<and> normalizeDate (eventDate ev) = requested_date x"
      using ev by (auto simp: eventBooking_def)
  next
    assume "\<exists>ev\<in>set evs. courseId ev = course_id x
                 \<and> normalizeDate (eventDate ev) = requested_date x"
    then obtain ev where ev: "ev \<in> set evs" "courseId ev = course_id x"
      "normalizeDate (eventDate ev) = requested_date x" by blast
    then have "booking_identifier x = booking_identifier (eventBooking ev)"
      by (simp add: booking_identifier_def eventBooking_def)
    then have "booking_identifier x \<in> booking_identifier ` set (eventBookings evs)"
      using ev(1) by (auto simp: eventBookings_def)
    then show "x \<notin> set (deduplicatedBookings fb (eventBookings evs))"
      using st by (simp add: deduplicatedBookings_filter keep_booking_iff)
  qed
  show ?thesis using a b c by blast
qed
lemma normalizeDate_Text_simps:
  "normalizeDate (Text ''2024-01-10'') = Some ''2024-01-10''"
  "normalizeDate (Text ''2024-01-11'') = Some ''2024-01-11''"
  "normalizeDate (Text ''2024-01-12'') = Some ''2024-01-12''"
  "normalizeDate (Text ''2023-12-30'') = Some ''2023-12-30''"
  "normalizeDate (Text ''2024-01-10T09:00:00.000Z'') = Some ''2024-01-10''"
  "normalizeDate (Text ''not a date'') = None"
  "normalizeDate (Text '''') = None"
  by (simp_all add: normalizeDate_def split_T_def is_canonical_def is_digit_def digit_val_def)

lemma toLowerCase_simps:
  "toLowerCase ''CONFIRMED'' = ''confirmed''"
  "toLowerCase ''Confirmed'' = ''confirmed''"
  "toLowerCase ''confirmed'' = ''confirmed''"
  "toLowerCase ''AVAILABLE'' = ''available''"
  "toLowerCase ''pending'' = ''pending''"
  "toLowerCase ''booked'' = ''booked''"
  by (simp_all add: toLowerCase_def toLowerChar_def)

theorem deduplication_ignores_end_date_witness:
  "filteredBookings [sample_raw_booking ''c1'' (Text ''2024-01-10'') (Some ''2024-01-12'') ''CONFIRMED'']
       ''2024-01-01'' ''2024-01-31''
     = Inr [sample_booking ''c1'' ''2024-01-10'' (Some ''2024-01-12'') ''confirmed'']
   \<and> deduplicatedBookings [sample_booking ''c1'' ''2024-01-10'' (Some ''2024-01-12'') ''confirmed'']
         (eventBookings [sample_event ''c1'' (Text ''2024-01-11'') (Text ''2024-01-12'')])
     = [sample_booking ''c1'' ''2024-01-10'' (Some ''2024-01-12'') ''confirmed'']
   \<and> map (\<lambda>b. b\<lparr>end_date := None\<rparr>)
        (deduplicatedBookings [sample_booking ''c1'' ''2024-01-10'' (Some ''2024-01-12'') ''confirmed'']
           (eventBookings [sample_event ''c1'' (Text ''2024-01-10'') (Text ''2024-01-12'')]))
     = map (\<lambda>b. b\<lparr>end_date := None\<rparr>)
        (deduplicatedBookings [sample_booking ''c1'' ''2024-01-10'' None ''confirmed'']
           (eventBookings [sample_event ''c1'' (Text ''2024-01-10'') Missing]))"
proof -
  let ?raw = "[sample_raw_booking ''c1'' (Text ''2024-01-10'') (Some ''2024-01-12'') ''CONFIRMED'']"
  let ?x = "sample_booking ''c1'' ''2024-01-10'' (Some ''2024-01-12'') ''confirmed''"
  let ?x' = "sample_booking ''c1'' ''2024-01-10'' None ''confirmed''"
  let ?evs = "[sample_event ''c1'' (Text ''2024-01-11'') (Text ''2024-01-12'')]"
  let ?eb = "eventBookings [sample_event ''c1'' (Text ''2024-01-10'') (Text ''2024-01-12'')]"
  let ?eb' = "eventBookings [sample_event ''c1'' (Text ''2024-01-10'') Missing]"
  have h1: "status ?x = status ?x' \<and> course_id ?x = course_id ?x'
            \<and> requested_date ?x = requested_date ?x'"
    by (simp add: sample_booking_def)
  have h2: "map (\<lambda>b. b\<lparr>end_date := None\<rparr>) [?x] = map (\<lambda>b. b\<lparr>end_date := None\<rparr>) [?x']
            \<and> map (\<lambda>b. b\<lparr>end_date := None\<rparr>) ?eb = map (\<lambda>b. b\<lparr>end_date := None\<rparr>) ?eb'"
    by (simp add: sample_booking_def eventBookings_def eventBooking_def sample_event_def
          event_title_def)
  have h3: "filteredBookings ?raw ''2024-01-01'' ''2024-01-31'' = Inr [?x]"
    by (simp add: filteredBookings_def normalizeBooking_def sample_raw_booking_def
          sample_booking_def in_range_def normalizeDate_Text_simps toLowerCase_simps split_T_def)
  have h4: "\<forall>x\<in>set [?x]. toLowerCase (status x) = ''confirmed''"
    by (simp add: sample_booking_def toLowerCase_simps)
  have no_event: "\<not> (\<exists>ev\<in>set ?evs. courseId ev = course_id ?x
                       \<and> normalizeDate (eventDate ev) = requested_date ?x)"
    by (simp add: sample_event_def sample_booking_def normalizeDate_Text_simps)
  have mem: "?x \<in> set [?x]" by simp
  have kept: "?x \<in> set (deduplicatedBookings [?x] (eventBookings ?evs))"
    using deduplication_ignores_end_date
            [where b = ?x and b' = ?x' and fb = "[?x]" and fb' = "[?x']" and eb = ?eb and eb' = ?eb'
               and raw = ?raw and startStr = "''2024-01-01''" and endStr = "''2024-01-31''"
               and evs = ?evs and ids = "{}"]
          h3 h4 no_event mem
    by blast
  have "deduplicatedBookings [?x] (eventBookings ?evs) = [?x]"
    using kept by (simp add: deduplicatedBookings_filter split: if_splits)
  moreover have "map (\<lambda>b. b\<lparr>end_date := None\<rparr>) (deduplicatedBookings [?x] ?eb)
     = map (\<lambda>b. b\<lparr>end_date := None\<rparr>) (deduplicatedBookings [?x'] ?eb')"
    using deduplication_ignores_end_date
            [where b = ?x and b' = ?x' and fb = "[?x]" and fb' = "[?x']" and eb = ?eb and eb' = ?eb'
               and raw = ?raw and startStr = "''2024-01-01''" and endStr = "''2024-01-31''"
               and evs = ?evs and ids = "{}"]
          h1 h2
    by blast
  ultimately show ?thesis using h3 by simp
qed

subsection \<open>The deduplication contract\<close>

lemma toLowerChar_cases:
  "toLowerChar x = x \<or>
   (\<exists>b0 b1 b2 b3 b4 b5 b6 b7. x = Char b0 b1 b2 b3 b4 b5 b6 b7
        \<and> toLowerChar x = Char b0 b1 b2 b3 b4 True b6 b7)"
  by (cases x) (simp add: toLowerChar_def)

lemma toLowerChar_eq_iff:
  "toLowerChar x = CHR ''c'' \<longleftrightarrow> x = CHR ''c'' \<or> x = CHR ''C''"
  "toLowerChar x = CHR ''o'' \<longleftrightarrow> x = CHR ''o'' \<or> x = CHR ''O''"
  "toLowerChar x = CHR ''n'' \<longleftrightarrow> x = CHR ''n'' \<or> x = CHR ''N''"
  "toLowerChar x = CHR ''f'' \<longleftrightarrow> x = CHR ''f'' \<or> x = CHR ''F''"
  "toLowerChar x = CHR ''i'' \<longleftrightarrow> x = CHR ''i'' \<or> x = CHR ''I''"
  "toLowerChar x = CHR ''r'' \<longleftrightarrow> x = CHR ''r'' \<or> x = CHR ''R''"
  "toLowerChar x = CHR ''m'' \<longleftrightarrow> x = CHR ''m'' \<or> x = CHR ''M''"
  "toLowerChar x = CHR ''e'' \<longleftrightarrow> x = CHR ''e'' \<or> x = CHR ''E''"
  "toLowerChar x = CHR ''d'' \<longleftrightarrow> x = CHR ''d'' \<or> x = CHR ''D''"
proof -
  have up: "toLowerChar x = Char b0 b1 b2 b3 b4 True True False \<Longrightarrow>
      x = Char b0 b1 b2 b3 b4 True True False \<or> x = Char b0 b1 b2 b3 b4 False True False"
    for b0 b1 b2 b3 b4
    using toLowerChar_cases [of x] by auto
  show "toLowerChar x = CHR ''c'' \<longleftrightarrow> x = CHR ''c'' \<or> x = CHR ''C''"
    using up [of True True False False False] by (auto simp: toLowerChar_def)
  show "toLowerChar x = CHR ''o'' \<longleftrightarrow> x = CHR ''o'' \<or> x = CHR ''O''"
    using up [of True True True True False] by (auto simp: toLowerChar_def)
  show "toLowerChar x = CHR ''n'' \<longleftrightarrow> x = CHR ''n'' \<or> x = CHR ''N''"
    using up [of False True True True False] by (auto simp: toLowerChar_def)
  show "toLowerChar x = CHR ''f'' \<longleftrightarrow> x = CHR ''f'' \<or> x = CHR ''F''"
    using up [of False True True False False] by (auto simp: toLowerChar_def)
  show "toLowerChar x = CHR ''i'' \<longleftrightarrow> x = CHR ''i'' \<or> x = CHR ''I''"
    using up [of True False False True False] by (auto simp: toLowerChar_def)
  show "toLowerChar x = CHR ''r'' \<longleftrightarrow> x = CHR ''r'' \<or> x = CHR ''R''"
    using up [of False True False False True] by (auto simp: toLowerChar_def)
  show "toLowerChar x = CHR ''m'' \<longleftrightarrow> x = CHR ''m'' \<or> x = CHR ''M''"
    using up [of True False True True False] by (auto simp: toLowerChar_def)
  show "toLowerChar x = CHR ''e'' \<longleftrightarrow> x = CHR ''e'' \<or> x = CHR ''E''"
    using up [of True False True False False] by (auto simp: toLowerChar_def)
  show "toLowerChar x = CHR ''d'' \<longleftrightarrow> x = CHR ''d'' \<or> x = CHR ''D''"
    using up [of False False True False False] by (auto simp: toLowerChar_def)
qed

lemma toLowerCase_confirmed_iff:
  "toLowerCase st = ''confirmed'' \<longleftrightarrow>
     list_all2 (\<lambda>x (l, u). x = l \<or> x = u) st (zip ''confirmed'' ''CONFIRMED'')"
  by (simp add: toLowerCase_def map_eq_Cons_conv list_all2_Cons2 toLowerChar_eq_iff)

lemma count_list_distinct:
  "distinct xs \<Longrightarrow> x \<in> set xs \<Longrightarrow> count_list xs x = 1"
  by (induction xs) (auto simp: count_list_0_iff)

text \<open>
  C2. The combined list is the kept raw bookings followed by all event-derived bookings,
  each group in its input order. A raw booking whose lower-cased status is \<open>confirmed\<close>
  is discarded exactly when its \<open>courseId:date\<close> identifier is among the identifiers of
  the event-derived bookings; otherwise it occurs in the deduplicated list as often as in
  the input. A raw booking with any other status is kept unconditionally. Event-derived
  bookings have status \<open>booked\<close>, so a kept confirmed booking occurs in the combined list
  as often as in the raw input.

  The status test ignores case: a status lower-cases to \<open>confirmed\<close> exactly when each
  of its nine characters is the corresponding letter of \<open>confirmed\<close> in lower or upper
  case. The identifier of a booking with a date is its course id, a colon and the date, and
  for dates as the normaliser returns them two identifiers agree exactly when course and
  date agree, so an event of the same course on another date suppresses nothing. The
  deduplicated list holds the raw bookings at the kept positions, each position once; when
  the raw list has no repetitions, a kept confirmed booking occurs exactly once in the
  deduplicated list and exactly once in the combined list.
\<close>

theorem deduplication_contract:
  "allCalendarBookings fb eb = deduplicatedBookings fb eb @ eb
   \<and> deduplicatedBookings fb eb =
       filter (\<lambda>b. toLowerCase (status b) = ''confirmed'' \<longrightarrow>
                    booking_identifier b \<notin> booking_identifier ` set eb) fb
   \<and> (\<forall>b. toLowerCase (status b) = ''confirmed'' \<and> booking_identifier b \<in> booking_identifier ` set eb
          \<longrightarrow> b \<notin> set (deduplicatedBookings fb eb))
   \<and> (\<forall>b. toLowerCase (status b) = ''confirmed'' \<and> booking_identifier b \<notin> booking_identifier ` set eb
          \<longrightarrow> count_list (deduplicatedBookings fb eb) b = count_list fb b)
   \<and> (\<forall>b. toLowerCase (status b) \<noteq> ''confirmed''
          \<longrightarrow> count_list (deduplicatedBookings fb eb) b = count_list fb b)
   \<and> ((\<forall>e\<in>set eb. status e = ''booked'') \<longrightarrow>
        (\<forall>b. toLowerCase (status b) = ''confirmed'' \<longrightarrow>
           count_list (allCalendarBookings fb eb) b =
             (if booking_identifier b \<in> booking_identifier ` set eb then 0 else count_list fb b)))
   \<and> (toLowerCase st = ''confirmed'' \<longleftrightarrow>
        list_all2 (\<lambda>c (l, u). c = l \<or> c = u) st (zip ''confirmed'' ''CONFIRMED''))
   \<and> (requested_date x = Some d \<longrightarrow> booking_identifier x = course_id x @ '':'' @ d)
   \<and> ((\<forall>d. requested_date x = Some d \<longrightarrow> is_canonical d)
        \<and> (\<forall>d. requested_date y = Some d \<longrightarrow> is_canonical d) \<longrightarrow>
        (booking_identifier x = booking_identifier y \<longleftrightarrow>
           course_id x = course_id y \<and> requested_date x = requested_date y))
   \<and> deduplicatedBookings fb eb =
       nths fb {i. i < length fb \<and>
                   (toLowerCase (status (fb ! i)) = ''confirmed'' \<longrightarrow>
                      booking_identifier (fb ! i) \<notin> booking_identifier ` set eb)}
   \<and> (distinct fb \<longrightarrow>
        (\<forall>b\<in>set fb. toLowerCase (status b) = ''confirmed''
              \<and> booking_identifier b \<notin> booking_identifier ` set eb \<longrightarrow>
           count_list (deduplicatedBookings fb eb) b = 1
           \<and> ((\<forall>e\<in>set eb. status e = ''booked'') \<longrightarrow>
                count_list (allCalendarBookings fb eb) b = 1)))"
proof -
  let ?ids = "booking_identifier ` set eb"
  have keep: "keep_booking ?ids =
      (\<lambda>b. toLowerCase (status b) = ''confirmed'' \<longrightarrow> booking_identifier b \<notin> ?ids)"
    by (rule ext) (simp add: keep_booking_iff)
  have c: "count_list eb b = 0"
    if "\<forall>e\<in>set eb. status e = ''booked''" "toLowerCase (status b) = ''confirmed''" for b
  proof -
    have "b \<notin> set eb" using that confirmed_not_booked by blast
    then show ?thesis by (simp add: count_list_0_iff)
  qed
  have old: "allCalendarBookings fb eb = deduplicatedBookings fb eb @ eb
   \<and> deduplicatedBookings fb eb =
       filter (\<lambda>b. toLowerCase (status b) = ''confirmed'' \<longrightarrow> booking_identifier b \<notin> ?ids) fb
   \<and> (\<forall>b. toLowerCase (status b) = ''confirmed'' \<and> booking_identifier b \<in> ?ids
          \<longrightarrow> b \<notin> set (deduplicatedBookings fb eb))
   \<and> (\<forall>b. toLowerCase (status b) = ''confirmed'' \<and> booking_identifier b \<notin> ?ids
          \<longrightarrow> count_list (deduplicatedBookings fb eb) b = count_list fb b)
   \<and> (\<forall>b. toLowerCase (status b) \<noteq> ''confirmed''
          \<longrightarrow> count_list (deduplicatedBookings fb eb) b = count_list fb b)
   \<and> ((\<forall>e\<in>set eb. status e = ''booked'') \<longrightarrow>
        (\<forall>b. toLowerCase (status b) = ''confirmed'' \<longrightarrow>
           count_list (allCalendarBookings fb eb) b =
             (if booking_identifier b \<in> ?ids then 0 else count_list fb b)))"
    using c by (simp add: allCalendarBookings_append deduplicatedBookings_filter keep count_list_filter)
  have ci: "toLowerCase st = ''confirmed'' \<longleftrightarrow>
        list_all2 (\<lambda>c (l, u). c = l \<or> c = u) st (zip ''confirmed'' ''CONFIRMED'')"
    by (rule toLowerCase_confirmed_iff)
  have idf: "requested_date x = Some d \<longrightarrow> booking_identifier x = course_id x @ '':'' @ d"
    by (simp add: booking_identifier_def)
  have inj: "booking_identifier x = booking_identifier y \<longleftrightarrow>
           course_id x = course_id y \<and> requested_date x = requested_date y"
    if "(\<forall>d. requested_date x = Some d \<longrightarrow> is_canonical d)
        \<and> (\<forall>d. requested_date y = Some d \<longrightarrow> is_canonical d)"
  proof
    assume "booking_identifier x = booking_identifier y"
    then show "course_id x = course_id y \<and> requested_date x = requested_date y"
      using that by (intro booking_identifier_inj) auto
  next
    assume "course_id x = course_id y \<and> requested_date x = requested_date y"
    then show "booking_identifier x = booking_identifier y"
      by (simp add: booking_identifier_def)
  qed
  have pos: "deduplicatedBookings fb eb =
       nths fb {i. i < length fb \<and>
                   (toLowerCase (status (fb ! i)) = ''confirmed'' \<longrightarrow>
                      booking_identifier (fb ! i) \<notin> ?ids)}"
    by (simp add: deduplicatedBookings_filter keep filter_eq_nths)
  have once: "count_list (deduplicatedBookings fb eb) b = 1
           \<and> ((\<forall>e\<in>set eb. status e = ''booked'') \<longrightarrow>
                count_list (allCalendarBookings fb eb) b = 1)"
    if df: "distinct fb" and b: "b \<in> set fb"
      and cf: "toLowerCase (status b) = ''confirmed'' \<and> booking_identifier b \<notin> ?ids" for b
  proof -
    have "count_list fb b = 1" using df b by (rule count_list_distinct)
    then have one: "count_list (deduplicatedBookings fb eb) b = 1"
      using cf by (simp add: deduplicatedBookings_filter keep count_list_filter)
    then show ?thesis using c cf by (simp add: allCalendarBookings_append)
  qed
  show ?thesis
    using old ci idf inj pos once by blast
qed

theorem deduplication_contract_witness:
  "allCalendarBookings
     [sample_booking ''c1'' ''2024-01-10'' None ''confirmed'',
      sample_booking ''c2'' ''2024-01-10'' None ''confirmed'',
      sample_booking ''c1'' ''2024-01-10'' None ''pending'',
      sample_booking ''c1'' ''2024-01-10'' None ''CONFIRMED'',
      sample_booking ''c1'' ''2024-01-11'' None ''Confirmed'']
     [eventBooking (sample_event ''c1'' (Text ''2024-01-10T09:00:00Z'') Missing)]
   = [sample_booking ''c2'' ''2024-01-10'' None ''confirmed'',
      sample_booking ''c1'' ''2024-01-10'' None ''pending'',
      sample_booking ''c1'' ''2024-01-11'' None ''Confirmed'',
      eventBooking (sample_event ''c1'' (Text ''2024-01-10T09:00:00Z'') Missing)]
   \<and> count_list (allCalendarBookings
     [sample_booking ''c1'' ''2024-01-10'' None ''confirmed'',
      sample_booking ''c2'' ''2024-01-10'' None ''confirmed'',
      sample_booking ''c1'' ''2024-01-10'' None ''pending'',
      sample_booking ''c1'' ''2024-01-10'' None ''CONFIRMED'',
      sample_booking ''c1'' ''2024-01-11'' None ''Confirmed'']
     [eventBooking (sample_event ''c1'' (Text ''2024-01-10T09:00:00Z'') Missing)])
       (sample_booking ''c1'' ''2024-01-11'' None ''Confirmed'') = 1
   \<and> count_list (allCalendarBookings
     [sample_booking ''c1'' ''2024-01-10'' None ''confirmed'',
      sample_booking ''c2'' ''2024-01-10'' None ''confirmed'',
      sample_booking ''c1'' ''2024-01-10'' None ''pending'',
      sample_booking ''c1'' ''2024-01-10'' None ''CONFIRMED'',
      sample_booking ''c1'' ''2024-01-11'' None ''Confirmed'']
     [eventBooking (sample_event ''c1'' (Text ''2024-01-10T09:00:00Z'') Missing)])
       (sample_booking ''c1'' ''2024-01-10'' None ''CONFIRMED'') = 0
   \<and> toLowerCase ''CoNfIrMeD'' = ''confirmed''
   \<and> toLowerCase ''confirmee'' \<noteq> ''confirmed''"
proof -
  let ?b1 = "sample_booking ''c1'' ''2024-01-10'' None ''confirmed''"
  let ?b2 = "sample_booking ''c2'' ''2024-01-10'' None ''confirmed''"
  let ?b3 = "sample_booking ''c1'' ''2024-01-10'' None ''pending''"
  let ?b4 = "sample_booking ''c1'' ''2024-01-10'' None ''CONFIRMED''"
  let ?b5 = "sample_booking ''c1'' ''2024-01-11'' None ''Confirmed''"
  let ?e = "eventBooking (sample_event ''c1'' (Text ''2024-01-10T09:00:00Z'') Missing)"
  let ?fb = "[?b1, ?b2, ?b3, ?b4, ?b5]"
  let ?eb = "[?e]"
  note th1 = deduplication_contract [of ?fb ?eb "''CoNfIrMeD''" ?b5 "''2024-01-11''" ?e]
  note th2 = deduplication_contract [of ?fb ?eb "''confirmee''" ?b5 "''2024-01-11''" ?e]
  have nd: "normalizeDate (Text ''2024-01-10T09:00:00Z'') = Some ''2024-01-10''"
    by (simp add: normalizeDate_def split_T_def is_canonical_def is_digit_def digit_val_def)
  have ids: "booking_identifier ` set ?eb = {''c1:2024-01-10''}"
    by (simp add: eventBooking_def sample_event_def booking_identifier_def nd)
  have booked: "\<forall>e\<in>set ?eb. status e = ''booked''"
    by (simp add: eventBooking_def)
  have low: "toLowerCase ''CoNfIrMeD'' = ''confirmed''"
    using th1 by simp
  have nlow: "toLowerCase ''confirmee'' \<noteq> ''confirmed''"
    using th2 by simp
  have st: "toLowerCase (status ?b1) = ''confirmed''" "toLowerCase (status ?b2) = ''confirmed''"
    "toLowerCase (status ?b3) \<noteq> ''confirmed''" "toLowerCase (status ?b4) = ''confirmed''"
    "toLowerCase (status ?b5) = ''confirmed''"
    by (simp_all add: sample_booking_def toLowerCase_def toLowerChar_def)
  have bid: "booking_identifier ?b1 = ''c1:2024-01-10''" "booking_identifier ?b2 = ''c2:2024-01-10''"
    "booking_identifier ?b3 = ''c1:2024-01-10''" "booking_identifier ?b4 = ''c1:2024-01-10''"
    "booking_identifier ?b5 = ''c1:2024-01-11''"
    by (simp_all add: sample_booking_def booking_identifier_def)
  have "deduplicatedBookings ?fb ?eb =
       filter (\<lambda>b. toLowerCase (status b) = ''confirmed'' \<longrightarrow>
                    booking_identifier b \<notin> booking_identifier ` set ?eb) ?fb"
    using th1 by blast
  then have dd: "deduplicatedBookings ?fb ?eb = [?b2, ?b3, ?b5]"
    unfolding ids by (simp add: st bid)
  have "allCalendarBookings ?fb ?eb = deduplicatedBookings ?fb ?eb @ ?eb"
    using th1 by blast
  then have all: "allCalendarBookings ?fb ?eb = [?b2, ?b3, ?b5, ?e]"
    by (simp add: dd)
  have cnt: "count_list (allCalendarBookings ?fb ?eb) b =
      (if booking_identifier b \<in> booking_identifier ` set ?eb then 0 else count_list ?fb b)"
    if "toLowerCase (status b) = ''confirmed''" for b
    using th1 booked that by blast
  have ne: "?b5 \<noteq> ?b1" "?b5 \<noteq> ?b2" "?b5 \<noteq> ?b3" "?b5 \<noteq> ?b4"
    by (simp_all add: sample_booking_def)
  have c5: "count_list (allCalendarBookings ?fb ?eb) ?b5 = 1"
    using cnt [OF st(5)] unfolding ids by (simp add: bid ne ne [symmetric])
  have c4: "count_list (allCalendarBookings ?fb ?eb) ?b4 = 0"
    using cnt [OF st(4)] unfolding ids by (simp add: bid)
  show ?thesis
    using all c5 c4 low nlow by simp
qed

subsection \<open>The bookings of a date and the range filter\<close>

lemma covers_date_Some:
  assumes "requested_date b = Some r"
  shows "covers_date target b =
     Inr (case end_date b of
            Some e \<Rightarrow> (if split_T e \<noteq> [] then split_T r \<le> target \<and> target \<le> split_T e
                       else split_T r = target)
          | None \<Rightarrow> split_T r = target)"
  using assms by (simp add: covers_date_def Let_def split: option.splits)

lemma normalizeDate_Missing: "normalizeDate Missing = None"
  by (simp add: normalizeDate_def)

lemma filter_e_succeeds_iff:
  "(\<exists>ys. filter_e p xs = Inr ys) \<longleftrightarrow> (\<forall>x\<in>set xs. \<exists>k. p x = Inr k)"
proof
  assume "\<exists>ys. filter_e p xs = Inr ys"
  then show "\<forall>x\<in>set xs. \<exists>k. p x = Inr k"
  proof (induction xs)
    case Nil
    then show ?case by simp
  next
    case (Cons x xs)
    then show ?case by (auto split: sum.splits)
  qed
next
  assume "\<forall>x\<in>set xs. \<exists>k. p x = Inr k"
  then show "\<exists>ys. filter_e p xs = Inr ys" by (simp add: filter_e_Inr)
qed


lemma covers_date_succeeds_iff: "(\<exists>k. covers_date t b = Inr k) \<longleftrightarrow> requested_date b \<noteq> None"
  by (auto simp: covers_date_def Let_def split: option.splits)

text \<open>
  C3, as stated, fails for lists that hold a booking without start date, such as the
  booking derived from an event that has no date yet: the matcher reads the start date
  without a check and fails, also when no booking of the list covers the target date.
\<close>

theorem matcher_throws_without_start_date:
  "getBookingsForDate
     [(sample_booking ''c1'' ''2024-03-05'' None ''booked'')\<lparr>requested_date := None\<rparr>]
     ''2024-01-10'' = Inl TypeError
   \<and> getBookingsForDate
        (allCalendarBookings [sample_booking ''c2'' ''2024-02-01'' None ''pending'']
           (eventBookings [sample_event ''c1'' Missing Missing]))
        ''2024-01-10'' = Inl TypeError"
  by (simp add: getBookingsForDate_def covers_date_def sample_booking_def split_T_def
        allCalendarBookings_append deduplicatedBookings_filter keep_booking_iff
        toLowerCase_def toLowerChar_def
        eventBookings_def eventBooking_def sample_event_def normalizeDate_Missing)

text \<open>
  C3, amended. The matcher's test accepts a booking exactly when the booking has a start
  date and covers the target date: with an end date (one whose date part is not empty) iff
  start \<open>\<le>\<close> target \<open>\<le>\<close> end, without end date iff start = target, start and end
  being the date parts before a \<open>T\<close>. For a list in which every booking has a start
  date, the matcher returns the accepted bookings, in their order, and the empty list when
  no booking is accepted; for a list that holds a booking without start date it fails. A
  booking from 2024-01-10 to 2024-01-12 is returned for the 10th, 11th and 12th and not
  for the 9th or the 13th.
\<close>

theorem getBookingsForDate_overlap:
  "(covers_date target b = Inr True \<longleftrightarrow>
      (\<exists>r. requested_date b = Some r \<and>
           (case end_date b of
              Some e \<Rightarrow> (if split_T e \<noteq> [] then split_T r \<le> target \<and> target \<le> split_T e
                         else split_T r = target)
            | None \<Rightarrow> split_T r = target)))
   \<and> ((\<forall>x\<in>set bs. requested_date x \<noteq> None) \<longrightarrow>
        getBookingsForDate bs target = Inr (filter (\<lambda>x. covers_date target x = Inr True) bs))
   \<and> ((\<forall>x\<in>set bs. requested_date x \<noteq> None) \<and> (\<forall>x\<in>set bs. covers_date target x \<noteq> Inr True) \<longrightarrow>
        getBookingsForDate bs target = Inr [])
   \<and> ((\<exists>x\<in>set bs. requested_date x = None) \<longrightarrow> getBookingsForDate bs target = Inl TypeError)
   \<and> (requested_date x = Some ''2024-01-10'' \<and> end_date x = Some ''2024-01-12'' \<longrightarrow>
        getBookingsForDate [x] ''2024-01-10'' = Inr [x]
        \<and> getBookingsForDate [x] ''2024-01-11'' = Inr [x]
        \<and> getBookingsForDate [x] ''2024-01-12'' = Inr [x]
        \<and> getBookingsForDate [x] ''2024-01-09'' = Inr []
        \<and> getBookingsForDate [x] ''2024-01-13'' = Inr [])"
proof -
  have test: "covers_date target b = Inr True \<longleftrightarrow>
      (\<exists>r. requested_date b = Some r \<and>
           (case end_date b of
              Some e \<Rightarrow> (if split_T e \<noteq> [] then split_T r \<le> target \<and> target \<le> split_T e
                         else split_T r = target)
            | None \<Rightarrow> split_T r = target))"
  proof (cases "requested_date b")
    case None
    then show ?thesis by (simp add: covers_date_def)
  next
    case (Some r)
    then show ?thesis by (simp add: covers_date_Some split: option.splits)
  qed
  have main: "getBookingsForDate bs target = Inr (filter (\<lambda>x. covers_date target x = Inr True) bs)"
    if all: "\<forall>x\<in>set bs. requested_date x \<noteq> None"
  proof -
    have "\<forall>x\<in>set bs. \<exists>k. covers_date target x = Inr k"
      using all covers_date_Some by fastforce
    then show ?thesis unfolding getBookingsForDate_def by (rule filter_e_Inr)
  qed
  have empty: "getBookingsForDate bs target = Inr []"
    if "(\<forall>x\<in>set bs. requested_date x \<noteq> None) \<and> (\<forall>x\<in>set bs. covers_date target x \<noteq> Inr True)"
    using main that by (simp add: filter_empty_conv)
  have throws: "getBookingsForDate bs target = Inl TypeError"
    if none: "\<exists>x\<in>set bs. requested_date x = None"
  proof -
    have "\<not> (\<exists>out. getBookingsForDate bs target = Inr out)"
      unfolding getBookingsForDate_def filter_e_succeeds_iff covers_date_succeeds_iff
      using none by blast
    then obtain err where "getBookingsForDate bs target = Inl err"
      by (cases "getBookingsForDate bs target") auto
    then show ?thesis by (cases err) simp
  qed
  have ex: "getBookingsForDate [x] ''2024-01-10'' = Inr [x]
        \<and> getBookingsForDate [x] ''2024-01-11'' = Inr [x]
        \<and> getBookingsForDate [x] ''2024-01-12'' = Inr [x]
        \<and> getBookingsForDate [x] ''2024-01-09'' = Inr []
        \<and> getBookingsForDate [x] ''2024-01-13'' = Inr []"
    if "requested_date x = Some ''2024-01-10'' \<and> end_date x = Some ''2024-01-12''"
    using that by (simp add: getBookingsForDate_def covers_date_Some split_T_def)
  show ?thesis using test main empty throws ex by blast
qed

theorem getBookingsForDate_overlap_witness:
  "getBookingsForDate
     [sample_booking ''c1'' ''2024-01-10'' (Some ''2024-01-12T00:00:00.000Z'') ''confirmed'',
      sample_booking ''c2'' ''2024-01-11'' None ''pending'',
      sample_booking ''c3'' ''2024-01-12'' None ''approved''] ''2024-01-11''
   = Inr [sample_booking ''c1'' ''2024-01-10'' (Some ''2024-01-12T00:00:00.000Z'') ''confirmed'',
          sample_booking ''c2'' ''2024-01-11'' None ''pending'']
   \<and> getBookingsForDate
     [sample_booking ''c1'' ''2024-01-10'' (Some ''2024-01-12T00:00:00.000Z'') ''confirmed'',
      sample_booking ''c2'' ''2024-01-11'' None ''pending'',
      sample_booking ''c3'' ''2024-01-12'' None ''approved''] ''2024-01-13''
   = Inr []
   \<and> getBookingsForDate
     [sample_booking ''c2'' ''2024-01-11'' None ''pending'',
      eventBooking (sample_event ''c1'' Missing Missing)] ''2024-01-11''
   = Inl TypeError"
proof -
  let ?b1 = "sample_booking ''c1'' ''2024-01-10'' (Some ''2024-01-12T00:00:00.000Z'') ''confirmed''"
  let ?b2 = "sample_booking ''c2'' ''2024-01-11'' None ''pending''"
  let ?b3 = "sample_booking ''c3'' ''2024-01-12'' None ''approved''"
  let ?b4 = "eventBooking (sample_event ''c1'' Missing Missing)"
  let ?bs = "[?b1, ?b2, ?b3]"
  have h: "\<forall>x\<in>set ?bs. requested_date x \<noteq> None"
    by (simp add: sample_booking_def)
  have c11: "covers_date ''2024-01-11'' ?b1 = Inr True" "covers_date ''2024-01-11'' ?b2 = Inr True"
    "covers_date ''2024-01-11'' ?b3 \<noteq> Inr True"
    by (simp_all add: covers_date_def sample_booking_def split_T_def)
  have c13: "\<forall>x\<in>set ?bs. covers_date ''2024-01-13'' x \<noteq> Inr True"
    by (simp add: covers_date_def sample_booking_def split_T_def)
  have n4: "\<exists>x\<in>set [?b2, ?b4]. requested_date x = None"
    by (simp add: eventBooking_def sample_event_def normalizeDate_Missing)
  have "getBookingsForDate ?bs ''2024-01-11'' = Inr [?b1, ?b2]"
    using getBookingsForDate_overlap [of "''2024-01-11''" ?b1 ?bs ?b1] h c11 by simp
  moreover have "getBookingsForDate ?bs ''2024-01-13'' = Inr []"
    using getBookingsForDate_overlap [of "''2024-01-13''" ?b1 ?bs ?b1] h c13 by blast
  moreover have "getBookingsForDate [?b2, ?b4] ''2024-01-11'' = Inl TypeError"
    using getBookingsForDate_overlap [of "''2024-01-11''" ?b1 "[?b2, ?b4]" ?b1] n4 by blast
  ultimately show ?thesis by simp
qed

text \<open>
  C9. The range filter's test accepts a booking exactly when the booking has a start date
  that lies in \<open>[startStr, endStr]\<close>; it never reads \<open>end_date\<close>, so changing the end
  date changes no decision. When every start date normalises to a date, the filter returns
  the bookings whose normalised start date lies in the range, in their order. Whenever the
  filter returns a list, a booking that starts before the range is not in it, whatever its
  end date, and hence not in the deduplicated list from which the days of the range take
  their bookings.
\<close>

theorem filteredBookings_start_date_only:
  "(in_range startStr endStr b = Inr True \<longleftrightarrow>
      (\<exists>d. requested_date b = Some d \<and> startStr \<le> split_T d \<and> split_T d \<le> endStr))
   \<and> in_range startStr endStr (b\<lparr>end_date := e\<rparr>) = in_range startStr endStr b
   \<and> (requested_date (normalizeBooking rb) = Some d \<longrightarrow> split_T d = d)
   \<and> ((\<forall>x\<in>set raw. normalizeDate (rb_requested_date x) \<noteq> None) \<longrightarrow>
        filteredBookings raw startStr endStr =
          Inr (filter (\<lambda>x. startStr \<le> the (requested_date x) \<and> the (requested_date x) \<le> endStr)
                 (map normalizeBooking raw)))
   \<and> (\<forall>fb. filteredBookings raw startStr endStr = Inr fb \<longrightarrow>
        (\<forall>x\<in>set raw. \<forall>d'. normalizeDate (rb_requested_date x) = Some d' \<and> d' < startStr \<longrightarrow>
           normalizeBooking x \<notin> set fb
           \<and> normalizeBooking x \<notin> set (deduplicatedBookings fb eb)))"
proof -
  let ?P = "\<lambda>x. startStr \<le> the (requested_date x) \<and> the (requested_date x) \<le> endStr"
  have test: "in_range startStr endStr b = Inr True \<longleftrightarrow>
      (\<exists>d. requested_date b = Some d \<and> startStr \<le> split_T d \<and> split_T d \<le> endStr)"
    by (cases "requested_date b") (simp_all add: in_range_def Let_def)
  have nocons: "in_range startStr endStr (b\<lparr>end_date := e\<rparr>) = in_range startStr endStr b"
    by (simp add: in_range_def)
  have plain: "split_T d = d" if "requested_date (normalizeBooking rb) = Some d" for rb d
  proof -
    have "is_canonical d" using that normalizeDate_canonical by (simp add: normalizeBooking_def)
    then show ?thesis using is_canonical_no_T split_T_id by blast
  qed
  have rng: "in_range startStr endStr (normalizeBooking x) = Inr (?P (normalizeBooking x))"
    if "normalizeDate (rb_requested_date x) = Some d'" for x d'
  proof -
    have "requested_date (normalizeBooking x) = Some d'"
      using that by (simp add: normalizeBooking_def)
    then show ?thesis using plain by (simp add: in_range_def)
  qed
  have main: "filteredBookings raw startStr endStr = Inr (filter ?P (map normalizeBooking raw))"
    if all: "\<forall>x\<in>set raw. normalizeDate (rb_requested_date x) \<noteq> None"
  proof -
    have r: "in_range startStr endStr y = Inr (?P y)" if ym: "y \<in> set (map normalizeBooking raw)" for y
    proof -
      obtain x where "x \<in> set raw" "y = normalizeBooking x" using ym by auto
      then show ?thesis using all rng by fastforce
    qed
    then have "\<forall>y\<in>set (map normalizeBooking raw). \<exists>k. in_range startStr endStr y = Inr k" by blast
    then have "filteredBookings raw startStr endStr =
        Inr (filter (\<lambda>y. in_range startStr endStr y = Inr True) (map normalizeBooking raw))"
      unfolding filteredBookings_def by (rule filter_e_Inr)
    moreover have "filter (\<lambda>y. in_range startStr endStr y = Inr True) (map normalizeBooking raw)
        = filter ?P (map normalizeBooking raw)"
      by (rule filter_cong) (simp_all add: r)
    ultimately show ?thesis by simp
  qed
  have excl: "normalizeBooking x \<notin> set fb \<and> normalizeBooking x \<notin> set (deduplicatedBookings fb eb)"
    if f: "filteredBookings raw startStr endStr = Inr fb"
      and d': "normalizeDate (rb_requested_date x) = Some d' \<and> d' < startStr" for fb x d'
  proof -
    have "fb = filter (\<lambda>y. in_range startStr endStr y = Inr True) (map normalizeBooking raw)"
      using f unfolding filteredBookings_def by (rule filter_e_set)
    moreover have "in_range startStr endStr (normalizeBooking x) \<noteq> Inr True"
      using d' rng [of x d'] by (auto simp: normalizeBooking_def dest: leD)
    ultimately have "normalizeBooking x \<notin> set fb" by simp
    then show ?thesis by (simp add: deduplicatedBookings_filter)
  qed
  show ?thesis using test nocons plain main excl by blast
qed

theorem filteredBookings_start_date_only_witness:
  "filteredBookings
     [sample_raw_booking ''c1'' (Text ''2023-12-30'') (Some ''2024-01-02'') ''confirmed'',
      sample_raw_booking ''c2'' (Text ''2024-01-10T09:00:00.000Z'') None ''Pending'']
     ''2024-01-01'' ''2024-01-31''
   = Inr [sample_booking ''c2'' ''2024-01-10'' None ''pending'']"
proof -
  let ?raw = "[sample_raw_booking ''c1'' (Text ''2023-12-30'') (Some ''2024-01-02'') ''confirmed'',
      sample_raw_booking ''c2'' (Text ''2024-01-10T09:00:00.000Z'') None ''Pending'']"
  have h: "\<forall>x\<in>set ?raw. normalizeDate (rb_requested_date x) \<noteq> None"
    by (simp add: sample_raw_booking_def normalizeDate_Text_simps)
  have l: "toLowerCase ''Pending'' = ''pending''"
    by (simp add: toLowerCase_def toLowerChar_def)
  have "filteredBookings ?raw ''2024-01-01'' ''2024-01-31'' =
          Inr (filter (\<lambda>x. ''2024-01-01'' \<le> the (requested_date x) \<and> the (requested_date x) \<le> ''2024-01-31'')
                 (map normalizeBooking ?raw))"
    using filteredBookings_start_date_only [where raw = ?raw and startStr = "''2024-01-01''"
            and endStr = "''2024-01-31''"] h
    by blast
  then show ?thesis
    by (simp add: sample_raw_booking_def sample_booking_def normalizeBooking_def
          normalizeDate_Text_simps toLowerCase_simps l)
qed

subsection \<open>Blocked weekdays\<close>

lemma show_nat_small: "n < 10 \<Longrightarrow> show_nat n = [digit_char n]"
  by (subst show_nat.simps) simp

lemma show_nat_large: "10 \<le> n \<Longrightarrow> show_nat n = show_nat (n div 10) @ [digit_char n]"
  by (subst show_nat.simps) simp

lemmas show_int_eval = show_int_def padStart_def show_nat_small show_nat_large digit_char_def

lemma div_between:
  fixes a b q :: int
  assumes "b * q \<le> a" "a < b * q + b"
  shows "a div b = q"
  using assms int_div_pos_eq [of a b q "a - b * q"] by simp

lemma civil_march_2024:
  assumes "19783 \<le> d" "d \<le> 19813"
  shows "civil_from_days d = (2024, 3, d - 19782)"
proof -
  define doe where "doe = d - 11017"
  have z: "d + 719468 = doe + 5 * 146097" by (simp add: doe_def)
  have era: "(d + 719468) div 146097 = 5" using assms by (intro div_between) simp_all
  have d1: "doe div 1460 = 6" "doe div 36524 = 0" "doe div 146096 = 0"
    using assms unfolding doe_def by (intro div_between; simp)+
  have yoe: "(doe - 6) div 365 = 24" using assms unfolding doe_def by (intro div_between) simp_all
  have mp: "(5 * doe - 43828) div 153 = 0"
    using assms unfolding doe_def by (intro div_between) simp_all
  have "civil_from_days d = (2024, 3, doe - 8766 + 1)"
    unfolding civil_from_days_def Let_def era
    by (simp add: z d1 yoe mp)
  then show ?thesis by (simp add: doe_def)
qed

lemma formatDate_march_2024:
  assumes "19783 \<le> d" "d \<le> 19813"
  shows "formatDate d = ''2024-03-'' @ show_int 2 (d - 19782)"
  using assms by (simp add: formatDate_def civil_march_2024 show_int_eval)

lemma civil_year_end_2023:
  "civil_from_days 19721 = (2023, 12, 30)"
  "civil_from_days 19722 = (2023, 12, 31)"
  "civil_from_days 19723 = (2024, 1, 1)"
  unfolding civil_from_days_def Let_def by simp_all

lemma days_from_civil_simps:
  "days_from_civil 2024 3 1 = 19783" "days_from_civil 2024 3 31 = 19813"
  "days_from_civil 2023 12 30 = 19721" "days_from_civil 2024 1 2 = 19724"
  "days_from_civil 2024 2 28 = 19781"
  by (simp_all add: days_from_civil_def)

lemma march_2024_filter:
  "filter (\<lambda>d. WeekDay d \<in> set [0, 6]) [19783..19813] =
     [19784, 19785, 19791, 19792, 19798, 19799, 19805, 19806, 19812, 19813]"
  by (simp add: WeekDay_def)

lemma march_2024_weekend:
  "map formatDate (filter (\<lambda>d. WeekDay d \<in> set [0, 6]) [19783..19813]) =
     [''2024-03-02'', ''2024-03-03'', ''2024-03-09'', ''2024-03-10'', ''2024-03-16'',
      ''2024-03-17'', ''2024-03-23'', ''2024-03-24'', ''2024-03-30'', ''2024-03-31'']"
  unfolding march_2024_filter by (simp add: formatDate_march_2024 show_int_eval)

lemma civil_leap_day_2024:
  "civil_from_days 19781 = (2024, 2, 28)"
  "civil_from_days 19782 = (2024, 2, 29)"
  "civil_from_days 19783 = (2024, 3, 1)"
  unfolding civil_from_days_def Let_def by simp_all

lemma leap_day_2024:
  "map formatDate (filter (\<lambda>d. WeekDay d \<in> set [3, 4, 5]) [19781..19783]) =
     [''2024-02-28'', ''2024-02-29'', ''2024-03-01'']"
  by (simp add: WeekDay_def formatDate_def civil_leap_day_2024 show_int_eval)

lemma year_end_2023:
  "map formatDate (filter (\<lambda>d. WeekDay d \<in> set [0, 1, 6]) [19721..19724]) =
     [''2023-12-30'', ''2023-12-31'', ''2024-01-01'']"
  by (simp add: WeekDay_def formatDate_def civil_year_end_2023 show_int_eval)






lemma expand_loop_step:
  "current \<le> lastDate \<Longrightarrow>
     expand_loop z current lastDate wd acc =
       expand_loop z (setDate_next z current) lastDate wd
         (if getDay z current \<in> set wd then acc @ [formatDate (Day (LocalTime z current))] else acc)"
  by (subst expand_loop.simps) simp

lemma expand_loop_stop:
  "\<not> current \<le> lastDate \<Longrightarrow> expand_loop z current lastDate wd acc = Some acc"
  by (subst expand_loop.simps) simp

lemma fixed_zone_simps:
  "LocalTime (fixed_zone off) t = t + off"
  "setDate_next (fixed_zone off) t = t + msPerDay"
  "getDay (fixed_zone off) t = WeekDay (Day (t + off))"
  by (simp_all add: LocalTime_def setDate_next_def UTC_def getDay_def fixed_zone_def)

lemma Day_next: "Day (t + msPerDay) = Day t + 1"
  by (simp add: Day_def msPerDay_def)

lemma upt_Suc_shift: "[0..<Suc (Suc k)] = 0 # map Suc [0..<Suc k]"
  by (simp only: map_Suc_upt upt_conv_Cons [of 0 "Suc (Suc k)"] zero_less_Suc)

lemma expand_loop_fixed:
  assumes "c + int k * msPerDay \<le> e" "e < c + int (Suc k) * msPerDay"
  shows "expand_loop (fixed_zone off) c e wd acc =
     Some (acc @ map (\<lambda>i. formatDate (Day (c + off) + int i))
                  (filter (\<lambda>i. WeekDay (Day (c + off) + int i) \<in> set wd) [0..<Suc k]))"
  using assms
proof (induction k arbitrary: c acc)
  case 0
  then have "c \<le> e" "\<not> c + msPerDay \<le> e" by simp_all
  then show ?case
    by (simp add: expand_loop_step expand_loop_stop fixed_zone_simps)
next
  case (Suc k)
  let ?acc = "if WeekDay (Day (c + off)) \<in> set wd then acc @ [formatDate (Day (c + off))] else acc"
  have pos: "0 < msPerDay" by (simp add: msPerDay_def)
  have le: "c \<le> e"
  proof -
    have "0 \<le> int (Suc k) * msPerDay" using pos by simp
    then show ?thesis using Suc.prems(1) by linarith
  qed
  have a: "(c + msPerDay) + int k * msPerDay \<le> e"
    using Suc.prems(1) by (simp add: algebra_simps)
  have b: "e < (c + msPerDay) + int (Suc k) * msPerDay"
    using Suc.prems(2) by (simp add: algebra_simps)
  have d: "Day (c + msPerDay + off) = Day (c + off) + 1"
    using Day_next [of "c + off"] by (simp add: add.commute add.left_commute)
  have "expand_loop (fixed_zone off) c e wd acc = expand_loop (fixed_zone off) (c + msPerDay) e wd ?acc"
    using le by (simp add: expand_loop_step fixed_zone_simps)
  also have "\<dots> = Some (?acc @ map (\<lambda>i. formatDate (Day (c + msPerDay + off) + int i))
                  (filter (\<lambda>i. WeekDay (Day (c + msPerDay + off) + int i) \<in> set wd) [0..<Suc k]))"
    by (rule Suc.IH [OF a b])
  also have "\<dots> = Some (acc @ map (\<lambda>i. formatDate (Day (c + off) + int i))
                  (filter (\<lambda>i. WeekDay (Day (c + off) + int i) \<in> set wd) [0..<Suc (Suc k)]))"
    unfolding upt_Suc_shift [of k] d
    by (simp add: filter_map comp_def add.assoc add.commute [of 1])
  finally show ?case .
qed

lemma map_int_upt: "map (\<lambda>i. d0 + int i) [0..<Suc k] = [d0..d0 + int k]"
proof (induction k)
  case 0
  then show ?case by simp
next
  case (Suc k)
  have "[d0..d0 + int (Suc k)] = [d0..d0 + int k] @ [d0 + int (Suc k)]"
    using upto_rec2 [of d0 "d0 + int (Suc k)"] by simp
  then show ?case using Suc by simp
qed

lemma expandedBlockedDates_fixed_zone_days:
  assumes "s \<le> e"
  shows "expandedBlockedDates (fixed_zone off) s e wd =
     Some (map formatDate (filter (\<lambda>d. WeekDay d \<in> set wd)
             [Day (s + off)..Day (s + off) + (e - s) div msPerDay]))"
proof -
  define k where "k = nat ((e - s) div msPerDay)"
  have pos: "0 < msPerDay" by (simp add: msPerDay_def)
  have k0: "0 \<le> (e - s) div msPerDay" using assms(1) pos by (simp add: pos_imp_zdiv_nonneg_iff)
  then have ik: "int k = (e - s) div msPerDay" by (simp add: k_def)
  have dm: "e - s = msPerDay * ((e - s) div msPerDay) + (e - s) mod msPerDay" by simp
  have r: "0 \<le> (e - s) mod msPerDay" "(e - s) mod msPerDay < msPerDay" using pos by simp_all
  have lo: "s + int k * msPerDay \<le> e"
    using dm r unfolding ik msPerDay_def by linarith
  have hi: "e < s + int (Suc k) * msPerDay"
    using dm r unfolding msPerDay_def by (simp add: ik msPerDay_def algebra_simps)
  have "expandedBlockedDates (fixed_zone off) s e wd =
      Some (map (\<lambda>i. formatDate (Day (s + off) + int i))
                  (filter (\<lambda>i. WeekDay (Day (s + off) + int i) \<in> set wd) [0..<Suc k]))"
    unfolding expandedBlockedDates_def using expand_loop_fixed [OF lo hi, of off wd "[]"] by simp
  also have "\<dots> = Some (map formatDate (filter (\<lambda>d. WeekDay d \<in> set wd)
                        (map (\<lambda>i. Day (s + off) + int i) [0..<Suc k])))"
    by (simp add: filter_map comp_def)
  finally show ?thesis by (simp only: map_int_upt ik)
qed

lemma expandedBlockedDates_fixed_zone:
  assumes "s \<le> e" "(s + off) mod msPerDay \<le> (e + off) mod msPerDay"
  shows "expandedBlockedDates (fixed_zone off) s e wd =
     Some (map formatDate (filter (\<lambda>d. WeekDay d \<in> set wd) [Day (s + off)..Day (e + off)]))"
proof -
  have pos: "0 < msPerDay" by (simp add: msPerDay_def)
  have "(e + off) - (s + off) = msPerDay * ((e + off) div msPerDay - (s + off) div msPerDay)
          + ((e + off) mod msPerDay - (s + off) mod msPerDay)"
    by (simp add: algebra_simps)
  moreover have "0 \<le> (e + off) mod msPerDay - (s + off) mod msPerDay" using assms(2) by simp
  moreover have "(e + off) mod msPerDay - (s + off) mod msPerDay < msPerDay"
  proof -
    have "(e + off) mod msPerDay < msPerDay" "0 \<le> (s + off) mod msPerDay" using pos by simp_all
    then show ?thesis by linarith
  qed
  ultimately have "((e + off) - (s + off)) div msPerDay = (e + off) div msPerDay - (s + off) div msPerDay"
    by (rule int_div_pos_eq)
  then have "Day (s + off) + (e - s) div msPerDay = Day (e + off)"
    by (simp add: Day_def)
  then show ?thesis
    using expandedBlockedDates_fixed_zone_days [OF assms(1), of off wd] by simp
qed

lemma expandedBlockedDates_empty_range:
  "e < s \<Longrightarrow> expandedBlockedDates z s e wd = Some []"
  by (simp add: expandedBlockedDates_def expand_loop_stop)

lemma march_2024_utc:
  "expandedBlockedDates (fixed_zone 0) (days_from_civil 2024 3 1 * msPerDay)
       (days_from_civil 2024 3 31 * msPerDay) [0, 6] =
     Some [''2024-03-02'', ''2024-03-03'', ''2024-03-09'', ''2024-03-10'', ''2024-03-16'',
           ''2024-03-17'', ''2024-03-23'', ''2024-03-24'', ''2024-03-30'', ''2024-03-31'']"
proof -
  have "expandedBlockedDates (fixed_zone 0) (19783 * msPerDay) (19813 * msPerDay) [0, 6] =
      Some (map formatDate (filter (\<lambda>d. WeekDay d \<in> set [0, 6])
              [Day (19783 * msPerDay + 0)..Day (19813 * msPerDay + 0)]))"
    by (rule expandedBlockedDates_fixed_zone) (simp_all add: msPerDay_def)
  also have "Day (19783 * msPerDay + 0) = 19783" by (simp add: Day_def msPerDay_def)
  also have "Day (19813 * msPerDay + 0) = 19813" by (simp add: Day_def msPerDay_def)
  finally show ?thesis by (simp only: days_from_civil_simps march_2024_weekend)
qed

lemma march_2024_noon_start:
  "expandedBlockedDates (fixed_zone 0) (days_from_civil 2024 3 1 * msPerDay + 43200000)
       (days_from_civil 2024 3 31 * msPerDay) [0, 6] =
     Some [''2024-03-02'', ''2024-03-03'', ''2024-03-09'', ''2024-03-10'', ''2024-03-16'',
           ''2024-03-17'', ''2024-03-23'', ''2024-03-24'', ''2024-03-30'']"
proof -
  have "expandedBlockedDates (fixed_zone 0) (19783 * msPerDay + 43200000) (19813 * msPerDay) [0, 6] =
      Some (map formatDate (filter (\<lambda>d. WeekDay d \<in> set [0, 6])
              [Day (19783 * msPerDay + 43200000 + 0)..
               Day (19783 * msPerDay + 43200000 + 0)
                 + (19813 * msPerDay - (19783 * msPerDay + 43200000)) div msPerDay]))"
    by (rule expandedBlockedDates_fixed_zone_days) (simp add: msPerDay_def)
  also have "Day (19783 * msPerDay + 43200000 + 0) = 19783" by (simp add: Day_def msPerDay_def)
  also have "(19813 * msPerDay - (19783 * msPerDay + 43200000)) div msPerDay = 29"
    by (simp add: msPerDay_def)
  also have "filter (\<lambda>d. WeekDay d \<in> set [0, 6]) [19783..19783 + 29] =
      [19784, 19785, 19791, 19792, 19798, 19799, 19805, 19806, 19812]"
    by (simp add: WeekDay_def)
  finally show ?thesis
    by (simp add: days_from_civil_simps formatDate_march_2024 show_int_eval)
qed

lemma civil_april_2024:
  assumes "19814 \<le> d" "d \<le> 19843"
  shows "civil_from_days d = (2024, 4, d - 19813)"
proof -
  define doe where "doe = d - 11017"
  have z: "d + 719468 = doe + 5 * 146097" by (simp add: doe_def)
  have era: "(d + 719468) div 146097 = 5" using assms by (intro div_between) simp_all
  have d1: "doe div 1460 = 6" "doe div 36524 = 0" "doe div 146096 = 0"
    using assms unfolding doe_def by (intro div_between; simp)+
  have yoe: "(doe - 6) div 365 = 24" using assms unfolding doe_def by (intro div_between) simp_all
  have mp: "(5 * doe - 43828) div 153 = 1"
    using assms unfolding doe_def by (intro div_between) simp_all
  have "civil_from_days d = (2024, 4, doe - 8766 - 31 + 1)"
    unfolding civil_from_days_def Let_def era
    by (simp add: z d1 yoe mp)
  then show ?thesis by (simp add: doe_def)
qed

lemma formatDate_april_2024:
  assumes "19814 \<le> d" "d \<le> 19843"
  shows "formatDate d = ''2024-04-'' @ show_int 2 (d - 19813)"
  using assms by (simp add: formatDate_def civil_april_2024 show_int_eval)

lemma cairo_2024_simps:
  "LocalTime cairo_2024 t = (if t < 1714082400000 then t + 7200000 else t + 10800000)"
  "UTC cairo_2024 lt = (if lt < 1714093200000 then lt - 7200000 else lt - 10800000)"
  by (simp_all add: LocalTime_def UTC_def cairo_2024_def transition_zone_def)

lemma cairo_april_2024:
  "expandedBlockedDates cairo_2024 1711922400000 1714424400000 [2] =
     Some [''2024-04-02'', ''2024-04-09'', ''2024-04-16'', ''2024-04-23'']"
  by (simp add: expandedBlockedDates_def expand_loop_step expand_loop_stop setDate_next_def
        getDay_def WeekDay_def Day_def msPerDay_def cairo_2024_simps formatDate_april_2024
        show_int_eval)

lemma days_from_civil_april_2024:
  "days_from_civil 2024 4 1 = 19814" "days_from_civil 2024 4 30 = 19843"
  by (simp_all add: days_from_civil_def)

lemma april_2024_tuesdays:
  "map formatDate (filter (\<lambda>d. WeekDay d \<in> set [2]) [19814..19843]) =
     [''2024-04-02'', ''2024-04-09'', ''2024-04-16'', ''2024-04-23'', ''2024-04-30'']"
proof -
  have "filter (\<lambda>d. WeekDay d \<in> set [2]) [19814..19843] = [19815, 19822, 19829, 19836, 19843]"
    by (simp add: WeekDay_def)
  then show ?thesis by (simp add: formatDate_april_2024 show_int_eval)
qed

text \<open>
  C4. The loop does not return every date of the range in every time zone. In
  Africa/Cairo, with the first and the last day of April 2024 at local midnight and the
  weekday set {2}, daylight saving time begins at local midnight of 26 April, so from
  that day on \<open>current\<close> stands at 01:00; on 30 April it is later than the end date and
  the loop stops. The five Tuesdays of the range are 2, 9, 16, 23 and 30 April; the loop
  returns the first four and omits 2024-04-30, although that day lies in the range and is
  a Tuesday.
\<close>

theorem expandedBlockedDates_drops_last_day:
  "LocalTime cairo_2024 1711922400000 = days_from_civil 2024 4 1 * msPerDay
   \<and> LocalTime cairo_2024 1714424400000 = days_from_civil 2024 4 30 * msPerDay
   \<and> getDay cairo_2024 1714424400000 = 2
   \<and> formatDate (Day (LocalTime cairo_2024 1714424400000)) = ''2024-04-30''
   \<and> map formatDate (filter (\<lambda>d. WeekDay d \<in> set [2])
        [days_from_civil 2024 4 1..days_from_civil 2024 4 30]) =
       [''2024-04-02'', ''2024-04-09'', ''2024-04-16'', ''2024-04-23'', ''2024-04-30'']
   \<and> expandedBlockedDates cairo_2024 1711922400000 1714424400000 [2] =
       Some [''2024-04-02'', ''2024-04-09'', ''2024-04-16'', ''2024-04-23'']"
proof -
  have a: "LocalTime cairo_2024 1711922400000 = days_from_civil 2024 4 1 * msPerDay"
    "LocalTime cairo_2024 1714424400000 = days_from_civil 2024 4 30 * msPerDay"
    by (simp_all add: cairo_2024_simps days_from_civil_april_2024 msPerDay_def)
  have b: "getDay cairo_2024 1714424400000 = 2"
    by (simp add: getDay_def WeekDay_def Day_def msPerDay_def cairo_2024_simps)
  have c: "formatDate (Day (LocalTime cairo_2024 1714424400000)) = ''2024-04-30''"
    by (simp add: Day_def msPerDay_def cairo_2024_simps formatDate_april_2024 show_int_eval)
  have d: "map formatDate (filter (\<lambda>d. WeekDay d \<in> set [2])
        [days_from_civil 2024 4 1..days_from_civil 2024 4 30]) =
       [''2024-04-02'', ''2024-04-09'', ''2024-04-16'', ''2024-04-23'', ''2024-04-30'']"
    by (simp only: days_from_civil_april_2024 april_2024_tuesdays)
  show ?thesis
    by (intro conjI) (fact a b c d cairo_april_2024)+
qed

subsection \<open>The event adapter\<close>

lemma raw_of_val_of_raw [simp]: "raw_of_val (val_of_raw r) = r"
  by (cases r) (simp_all add: raw_of_val_def val_of_raw_def)

lemma event_obj_props:
  "get_prop (event_obj ev cref) ''id'' = Str (ev_id ev)"
  "get_prop (event_obj ev cref) ''courseId'' = Str (courseId ev)"
  "get_prop (event_obj ev cref) ''trainerId'' = Str (trainerId ev)"
  "get_prop (event_obj ev cref) ''eventDate'' = val_of_raw (eventDate ev)"
  "get_prop (event_obj ev cref) ''endDate'' = val_of_raw (endDate ev)"
  "get_prop (event_obj ev cref) ''title'' = val_of_opt (title ev)"
  "get_prop (event_obj ev cref) ''courseType'' = val_of_opt (courseType ev)"
  "get_prop (event_obj ev cref) ''course'' = cref"
  by (simp_all add: get_prop_def event_obj_def)

lemma course_obj_title: "get_prop (course_obj c) ''title'' = val_of_opt (ci_title c)"
  by (simp add: get_prop_def course_obj_def)

lemma eventBooking_h_holds:
  assumes "holds_event h e ev"
  shows "eventBooking_h h e =
      (h @ [course_obj \<lparr> ci_id = courseId ev, ci_title = event_title ev \<rparr>,
            booking_obj (eventBooking ev) (Ref (length h))], Suc (length h))"
proof -
  obtain cref where ob: "h ! e = event_obj ev cref"
    and ct: "course_title_h h (event_obj ev cref) = (case course ev of None \<Rightarrow> Undefined | Some c \<Rightarrow> val_of_opt (ci_title c))"
    using assms
    by (auto simp: holds_event_def course_title_h_def event_obj_props course_obj_title
             split: option.splits)
  have t: "(case get_prop (h ! e) ''title'' of
                 Undefined \<Rightarrow> course_title_h h (h ! e)
               | Str s \<Rightarrow> (if s \<noteq> [] then Str s else course_title_h h (h ! e))
               | v \<Rightarrow> v) = val_of_opt (event_title ev)"
    by (simp add: ob event_obj_props ct event_title_def val_of_opt_def split: option.splits)
  have ty: "(get_prop (h ! e) ''courseType'' = Str ''PUBLIC'') = (courseType ev = Some ''PUBLIC'')"
    by (simp add: ob event_obj_props val_of_opt_def split: option.splits)
  show ?thesis
    unfolding eventBooking_h_def Let_def t ty
    by (simp add: ob event_obj_props course_obj_def booking_obj_def eventBooking_def val_of_opt_def)
qed

lemma reaches_fresh:
  assumes "reaches (h @ [course_obj c, booking_obj b (Ref (length h))]) (Suc (length h)) a"
  shows "a = Suc (length h) \<or> a = length h"
  using assms
proof (induction rule: reaches.induct)
  case reaches_self
  then show ?case by simp
next
  case (reaches_step a' k a'')
  then have "a' = Suc (length h) \<or> a' = length h" by simp
  then show ?case
  proof
    assume "a' = Suc (length h)"
    then have "(k, Ref a'') \<in> set (booking_obj b (Ref (length h)))"
      using reaches_step.hyps(3) by (simp add: nth_append)
    then show ?thesis by (auto simp: booking_obj_def val_of_opt_def split: option.splits)
  next
    assume "a' = length h"
    then have "(k, Ref a'') \<in> set (course_obj c)"
      using reaches_step.hyps(3) by (simp add: nth_append)
    then show ?thesis by (auto simp: course_obj_def val_of_opt_def split: option.splits)
  qed
qed

text \<open>
  C8. The adapter's result has status \<open>booked\<close>; its end date is the normalised end date
  of the event and its start date the normalised event date; id, course id and trainer id
  are the event's; the title is the event's title, or the title of the event's course when
  the event has no title or an empty one. On the store, the adapter allocates two new
  objects, the booking and its \<open>courses\<close> object, and leaves every existing object as it
  was; every object reachable from the result is one of the two new ones, so no write to
  an object of the result changes the event or any other object that existed before.
\<close>

theorem eventBooking_fresh_value:
  "status (eventBooking ev) = ''booked''
   \<and> end_date (eventBooking ev) = normalizeDate (endDate ev)
   \<and> requested_date (eventBooking ev) = normalizeDate (eventDate ev)
   \<and> booking_id (eventBooking ev) = ev_id ev
   \<and> course_id (eventBooking ev) = courseId ev
   \<and> trainer_id (eventBooking ev) = trainerId ev
   \<and> courses (eventBooking ev) = Some \<lparr> ci_id = courseId ev, ci_title = event_title ev \<rparr>
   \<and> (\<forall>t. title ev = Some t \<and> t \<noteq> [] \<longrightarrow> event_title ev = Some t)
   \<and> eventBookings evs = map eventBooking evs
   \<and> (holds_event h e ev \<longrightarrow>
        eventBooking_h h e =
          (h @ [course_obj \<lparr> ci_id = courseId ev, ci_title = event_title ev \<rparr>,
                booking_obj (eventBooking ev) (Ref (length h))], Suc (length h))
        \<and> take (length h) (fst (eventBooking_h h e)) = h
        \<and> (\<forall>a. reaches (fst (eventBooking_h h e)) (snd (eventBooking_h h e)) a
               \<longrightarrow> length h \<le> a \<and> a \<noteq> e)
        \<and> (\<forall>a ob a'. reaches (fst (eventBooking_h h e)) (snd (eventBooking_h h e)) a \<and> a' < length h
               \<longrightarrow> ((fst (eventBooking_h h e))[a := ob]) ! a' = h ! a'))"
proof -
  have rec: "status (eventBooking ev) = ''booked''
   \<and> end_date (eventBooking ev) = normalizeDate (endDate ev)
   \<and> requested_date (eventBooking ev) = normalizeDate (eventDate ev)
   \<and> booking_id (eventBooking ev) = ev_id ev
   \<and> course_id (eventBooking ev) = courseId ev
   \<and> trainer_id (eventBooking ev) = trainerId ev
   \<and> courses (eventBooking ev) = Some \<lparr> ci_id = courseId ev, ci_title = event_title ev \<rparr>
   \<and> (\<forall>t. title ev = Some t \<and> t \<noteq> [] \<longrightarrow> event_title ev = Some t)
   \<and> eventBookings evs = map eventBooking evs"
    by (simp add: eventBooking_def eventBookings_def event_title_def)
  have store: "eventBooking_h h e =
          (h @ [course_obj \<lparr> ci_id = courseId ev, ci_title = event_title ev \<rparr>,
                booking_obj (eventBooking ev) (Ref (length h))], Suc (length h))
        \<and> take (length h) (fst (eventBooking_h h e)) = h
        \<and> (\<forall>a. reaches (fst (eventBooking_h h e)) (snd (eventBooking_h h e)) a
               \<longrightarrow> length h \<le> a \<and> a \<noteq> e)
        \<and> (\<forall>a ob a'. reaches (fst (eventBooking_h h e)) (snd (eventBooking_h h e)) a \<and> a' < length h
               \<longrightarrow> ((fst (eventBooking_h h e))[a := ob]) ! a' = h ! a')"
    if he: "holds_event h e ev"
  proof -
    let ?c = "course_obj \<lparr> ci_id = courseId ev, ci_title = event_title ev \<rparr>"
    let ?h' = "h @ [?c, booking_obj (eventBooking ev) (Ref (length h))]"
    have eq: "eventBooking_h h e = (?h', Suc (length h))"
      using he by (rule eventBooking_h_holds)
    have e: "e < length h" using he by (simp add: holds_event_def)
    have fresh: "length h \<le> a \<and> a \<noteq> e" if "reaches ?h' (Suc (length h)) a" for a
      using reaches_fresh [OF that] e by auto
    have upd: "(?h'[a := ob]) ! a' = h ! a'"
      if "reaches ?h' (Suc (length h)) a" "a' < length h" for a ob a'
    proof -
      have "a \<noteq> a'" using fresh [OF that(1)] that(2) by simp
      then have "(?h'[a := ob]) ! a' = ?h' ! a'" by simp
      then show ?thesis using that(2) by (simp add: nth_append)
    qed
    show ?thesis using fresh upd by (simp add: eq)
  qed
  show ?thesis using rec store by blast
qed

theorem eventBooking_fresh_value_witness:
  "holds_event
     [course_obj \<lparr> ci_id = ''c1'', ci_title = Some ''Safety training'' \<rparr>,
      event_obj ((sample_event ''c1'' (Text ''2024-01-10T09:00:00.000Z'') (Text ''2024-01-12''))
                   \<lparr> title := None, course := Some \<lparr> ci_id = ''c1'', ci_title = Some ''Safety training'' \<rparr> \<rparr>)
                (Ref 0)]
     1
     ((sample_event ''c1'' (Text ''2024-01-10T09:00:00.000Z'') (Text ''2024-01-12''))
        \<lparr> title := None, course := Some \<lparr> ci_id = ''c1'', ci_title = Some ''Safety training'' \<rparr> \<rparr>)
   \<and> snd (eventBooking_h
     [course_obj \<lparr> ci_id = ''c1'', ci_title = Some ''Safety training'' \<rparr>,
      event_obj ((sample_event ''c1'' (Text ''2024-01-10T09:00:00.000Z'') (Text ''2024-01-12''))
                   \<lparr> title := None, course := Some \<lparr> ci_id = ''c1'', ci_title = Some ''Safety training'' \<rparr> \<rparr>)
                (Ref 0)] 1) = 3
   \<and> get_prop (fst (eventBooking_h
     [course_obj \<lparr> ci_id = ''c1'', ci_title = Some ''Safety training'' \<rparr>,
      event_obj ((sample_event ''c1'' (Text ''2024-01-10T09:00:00.000Z'') (Text ''2024-01-12''))
                   \<lparr> title := None, course := Some \<lparr> ci_id = ''c1'', ci_title = Some ''Safety training'' \<rparr> \<rparr>)
                (Ref 0)] 1) ! 2) ''title'' = Str ''Safety training''
   \<and> ((fst (eventBooking_h
     [course_obj \<lparr> ci_id = ''c1'', ci_title = Some ''Safety training'' \<rparr>,
      event_obj ((sample_event ''c1'' (Text ''2024-01-10T09:00:00.000Z'') (Text ''2024-01-12''))
                   \<lparr> title := None, course := Some \<lparr> ci_id = ''c1'', ci_title = Some ''Safety training'' \<rparr> \<rparr>)
                (Ref 0)] 1)) [3 := [(''status'', Str ''cancelled'')]]) ! 1
     = event_obj ((sample_event ''c1'' (Text ''2024-01-10T09:00:00.000Z'') (Text ''2024-01-12''))
                   \<lparr> title := None, course := Some \<lparr> ci_id = ''c1'', ci_title = Some ''Safety training'' \<rparr> \<rparr>)
                (Ref 0)"
proof -
  let ?c = "\<lparr> ci_id = ''c1'', ci_title = Some ''Safety training'' \<rparr>"
  let ?ev = "(sample_event ''c1'' (Text ''2024-01-10T09:00:00.000Z'') (Text ''2024-01-12''))
                   \<lparr> title := None, course := Some ?c \<rparr>"
  let ?h = "[course_obj ?c, event_obj ?ev (Ref 0)]"
  have he: "holds_event ?h 1 ?ev"
    by (auto simp: holds_event_def sample_event_def intro!: exI [of _ 0])
  note t = eventBooking_fresh_value [of ?ev "[]" ?h 1]
  have eq: "eventBooking_h ?h 1 =
          (?h @ [course_obj \<lparr> ci_id = courseId ?ev, ci_title = event_title ?ev \<rparr>,
                booking_obj (eventBooking ?ev) (Ref (length ?h))], Suc (length ?h))"
    using t he by blast
  have r: "reaches (fst (eventBooking_h ?h 1)) (snd (eventBooking_h ?h 1)) 3"
    unfolding eq by (simp add: reaches_self numeral_3_eq_3)
  have upd: "((fst (eventBooking_h ?h 1))[3 := [(''status'', Str ''cancelled'')]]) ! 1 = ?h ! 1"
    using t he r by (metis One_nat_def length_Cons list.size(3) lessI numeral_2_eq_2)
  have ttl: "get_prop (fst (eventBooking_h ?h 1) ! 2) ''title'' = Str ''Safety training''"
    unfolding eq
    by (simp add: get_prop_def course_obj_def event_title_def sample_event_def val_of_opt_def)
  have upd': "((fst (eventBooking_h ?h 1))[3 := [(''status'', Str ''cancelled'')]]) ! 1
      = event_obj ?ev (Ref 0)"
    by (simp only: upd) simp
  have s3: "snd (eventBooking_h ?h 1) = 3"
    unfolding eq by simp
  show ?thesis
    by (intro conjI) (fact he s3 ttl upd')+
qed

subsection \<open>The date normaliser and its callers\<close>





end
